theory Spec2Isabelle
  imports Main
begin

section \<open>Braille Cell Ignorer: logical and physical braille cells\<close>

text \<open>
  A shallow embedding of \<^verbatim>\<open>config.py\<close> and \<^verbatim>\<open>cellMapping.py\<close>.
  Python's unbounded integers are \<^typ>\<open>int\<close>, a Python \<^verbatim>\<open>set[int]\<close> is an
  \<^typ>\<open>int set\<close> (always built from a list, hence finite), \<^verbatim>\<open>None\<close> is the
  \<open>None\<close> of an option type. Names that start with an underscore in the source lose
  it or, for fields, carry the prefix \<open>m_\<close>.
\<close>

subsection \<open>config.py\<close>

text \<open>The dataclass \<^verbatim>\<open>IgnoredCellsProfile\<close>; \<open>ignoredCells\<close> holds 1-based indices.\<close>

record IgnoredCellsProfile =
  driverName :: string
  numCells :: int
  ignoredCells :: "int list"

text \<open>\<^verbatim>\<open>return [cell - 1 for cell in self.ignoredCells if cell > 0]\<close>\<close>

definition getIgnoredCellsZeroBased :: "IgnoredCellsProfile \<Rightarrow> int list" where
  "getIgnoredCellsZeroBased self = [cell - 1. cell \<leftarrow> ignoredCells self, cell > 0]"

text \<open>
  The part of a braille display driver that the add-on reads: its name, its cell count,
  its row count and whether it is written to directly.
\<close>

record BrailleDisplayDriver =
  drv_name :: string
  drv_numCells :: int
  drv_numRows :: int
  isThreadSafe :: bool

text \<open>
  \<^verbatim>\<open>loadProfiles()\<close> returns a dictionary keyed by \<^verbatim>\<open>f"{driverName}:{numCells}"\<close>.
  The decimal rendering of an integer has no colon, so the key determines the pair
  (name, cell count) and the dictionary is modelled as a map on such pairs; the
  parsing of the stored configuration is taken as given.
\<close>

type_synonym profiles = "string \<times> int \<rightharpoonup> IgnoredCellsProfile"

definition getActiveProfile ::
  "profiles \<Rightarrow> BrailleDisplayDriver option \<Rightarrow> IgnoredCellsProfile option" where
  "getActiveProfile loaded display =
     (case display of
        None \<Rightarrow> None
      | Some d \<Rightarrow>
          if drv_name d = ''noBraille'' then None
          else loaded (drv_name d, drv_numCells d))"

definition getIgnoredCellsForDisplay ::
  "profiles \<Rightarrow> BrailleDisplayDriver option \<Rightarrow> int list" where
  "getIgnoredCellsForDisplay loaded display =
     (case getActiveProfile loaded display of
        Some profile \<Rightarrow> getIgnoredCellsZeroBased profile
      | None \<Rightarrow> [])"

subsection \<open>The host module \<^verbatim>\<open>braille\<close> as the add-on sees it\<close>

record DisplayDimensions =
  numRows :: int
  numCols :: int

text \<open>
  The handler object: its display, its attribute \<^verbatim>\<open>_displayDimensions\<close>
  (\<open>None\<close> when the attribute does not exist, \<open>Some None\<close> when it holds
  \<^verbatim>\<open>None\<close>), and the values its properties \<^verbatim>\<open>displaySize\<close> and
  \<^verbatim>\<open>displayDimensions\<close> yield when read.
\<close>

record BrailleHandler =
  display :: "BrailleDisplayDriver option"
  displayDimensionsAttr :: "DisplayDimensions option option"
  displaySize :: int
  displayDimensions :: DisplayDimensions

text \<open>
  A patchable entry point holds either an object of the host (a function or a property,
  of an abstract type \<open>'f\<close>) or one of the three objects this add-on installs: the
  closure \<^verbatim>\<open>patchedWriteCells\<close>, the property built from \<^verbatim>\<open>getRoutingIndex\<close> and
  \<^verbatim>\<open>setRoutingIndex\<close>, the closure \<^verbatim>\<open>patchedRouteTo\<close>.
\<close>

datatype 'f impl = HostImpl 'f | PatchedWriteCells | PatchedRoutingIndex | PatchedRouteTo

text \<open>
  The module \<^verbatim>\<open>braille\<close>: the global \<^verbatim>\<open>braille.handler\<close>, whether this manager's
  filter is registered at the extension point \<^verbatim>\<open>filter_displayDimensions\<close>, and the three
  class attributes the add-on replaces. A class attribute holds a Python value, which
  may be \<^verbatim>\<open>None\<close> (the \<open>None\<close> of the option type): a plain class attribute such as
  \<^verbatim>\<open>routingIndex = None\<close> is a value of this kind.
\<close>

record 'f braille_module =
  handler :: "BrailleHandler option"
  filter_displayDimensions :: bool
  BrailleHandler_writeCells :: "'f impl option"
  BrailleDisplayGesture_routingIndex :: "'f impl option"
  BrailleHandler_routeTo :: "'f impl option"

text \<open>A gesture; \<open>routingIndexAttr\<close> is \<open>None\<close> when it has no attribute \<^verbatim>\<open>_routingIndex\<close>.\<close>

record BrailleDisplayGesture =
  routingIndexAttr :: "int option option"

subsection \<open>cellMapping.py: the manager\<close>

text \<open>
  The three \<^verbatim>\<open>_original...\<close> fields hold the value the class attribute had when it was
  patched, as it was: \<open>None\<close> both before anything is saved and when the value saved is
  \<^verbatim>\<open>None\<close>.
\<close>

record 'f CellMappingManager =
  m_ignoredCells :: "int set"
  m_originalRoutingIndexProperty :: "'f impl option"
  m_originalWriteCells :: "'f impl option"
  m_originalRouteTo :: "'f impl option"
  m_isRegistered :: bool

text \<open>\<^verbatim>\<open>__init__\<close>\<close>

definition init :: "'f CellMappingManager" where
  "init = \<lparr> m_ignoredCells = {},
            m_originalRoutingIndexProperty = None,
            m_originalWriteCells = None,
            m_originalRouteTo = None,
            m_isRegistered = False \<rparr>"

subsection \<open>The dimension filter\<close>

text \<open>
  \<^verbatim>\<open>_filterDisplayDimensions\<close>. It reads the host's handler
  (\<^verbatim>\<open>braille.handler.display if braille.handler else None\<close>) and the loaded profiles,
  assigns \<^verbatim>\<open>self._ignoredCells\<close> and returns the adjusted dimensions; the model
  returns the manager as updated together with the dimensions. The generator sum
  \<^verbatim>\<open>sum(1 for cell in s if c)\<close> is a sum of ones over the elements of \<open>s\<close> that pass
  the test.
\<close>

definition currentDisplay :: "'f braille_module \<Rightarrow> BrailleDisplayDriver option" where
  "currentDisplay brl = (case handler brl of Some h \<Rightarrow> display h | None \<Rightarrow> None)"

definition filterDisplayDimensions ::
  "profiles \<Rightarrow> 'f braille_module \<Rightarrow> 'f CellMappingManager \<Rightarrow> DisplayDimensions
     \<Rightarrow> 'f CellMappingManager \<times> DisplayDimensions" where
  "filterDisplayDimensions loaded brl self dims =
     (let disp = currentDisplay brl;
          ignoredList = getIgnoredCellsForDisplay loaded disp;
          self' = self\<lparr> m_ignoredCells := set ignoredList \<rparr>
      in if m_ignoredCells self' = {} \<or> numRows dims > 1 then (self', dims)
         else
           let validIgnoredCount =
                 (\<Sum>cell \<in> {cell \<in> m_ignoredCells self'. 0 \<le> cell \<and> cell < numCols dims}. (1::int));
               newNumCols = max 0 (numCols dims - validIgnoredCount)
           in (self', \<lparr> numRows = 1, numCols = newNumCols \<rparr>))"

subsection \<open>Forward remapping\<close>

text \<open>
  The loop of \<^verbatim>\<open>_remapCellsToPhysical\<close> over the remaining physical indices, with
  the list built so far and the counter \<^verbatim>\<open>logicalIndex\<close> (it starts at 0 and only
  grows, so it is a natural number and the list access never wraps or fails: it is
  guarded by the length test).
\<close>

fun remapLoop :: "int list \<Rightarrow> int set \<Rightarrow> int list \<Rightarrow> int list \<Rightarrow> nat \<Rightarrow> int list" where
  "remapLoop logicalCells ignored [] physicalCells logicalIndex = physicalCells"
| "remapLoop logicalCells ignored (physicalIndex # rest) physicalCells logicalIndex =
     (if physicalIndex \<in> ignored
      then remapLoop logicalCells ignored rest (physicalCells @ [0]) logicalIndex
      else
        remapLoop logicalCells ignored rest
          (if logicalIndex < length logicalCells
           then physicalCells @ [logicalCells ! logicalIndex]
           else physicalCells @ [0])
          (logicalIndex + 1))"

text \<open>\<^verbatim>\<open>range(physicalCellCount)\<close> is \<open>[0..physicalCellCount - 1]\<close>, empty when the count is not positive.\<close>

definition remapCellsToPhysical :: "int list \<Rightarrow> int \<Rightarrow> int set \<Rightarrow> int list" where
  "remapCellsToPhysical logicalCells physicalCellCount ignored =
     remapLoop logicalCells ignored [0..physicalCellCount - 1] [] 0"

subsection \<open>Reverse translation\<close>

definition physicalToLogicalIndex :: "'f CellMappingManager \<Rightarrow> int \<Rightarrow> int option" where
  "physicalToLogicalIndex self physicalIndex =
     (let ignored = m_ignoredCells self
      in if physicalIndex \<in> ignored then None
         else
           let ignoredBefore = (\<Sum>cell \<in> {cell \<in> ignored. cell < physicalIndex}. (1::int))
           in Some (physicalIndex - ignoredBefore))"

subsection \<open>The write hook\<close>

text \<open>
  What \<^verbatim>\<open>patchedWriteCells\<close> hands on: the notification \<^verbatim>\<open>pre_writeCells\<close> with the
  logical cells and their count (the raw text it also carries is the host's and is left
  out), and the cells given to the display, directly (\<^verbatim>\<open>display.display(cells)\<close>, for
  a display that is not thread safe) or as \<^verbatim>\<open>handler.queuedWrite\<close>; nothing when there
  is no display or it has no cells. What the host does with the cells afterwards (a
  failing \<^verbatim>\<open>display.display\<close>, the background write) is outside the model. The
  host's \<^verbatim>\<open>_normalizeCellArraySize\<close> is a parameter.
\<close>

datatype written = NotWritten | Displayed "int list" | Queued "int list"

definition patchedWriteCells ::
  "(int list \<Rightarrow> int \<Rightarrow> int \<Rightarrow> int \<Rightarrow> int \<Rightarrow> int list) \<Rightarrow> 'f CellMappingManager
     \<Rightarrow> BrailleHandler \<Rightarrow> int list \<Rightarrow> (int list \<times> int) \<times> written" where
  "patchedWriteCells normalizeCellArraySize manager hdl cells =
     (let logicalCellCount = displaySize hdl;
          notified = (cells, logicalCellCount)
      in case display hdl of
           None \<Rightarrow> (notified, NotWritten)
         | Some disp \<Rightarrow>
             if drv_numCells disp = 0 then (notified, NotWritten)
             else
               let physicalCellCount = drv_numCells disp;
                   ignored = m_ignoredCells manager;
                   cells' =
                     (if ignored \<noteq> {} \<and> numRows (displayDimensions hdl) = 1
                      then
                        remapCellsToPhysical
                          (normalizeCellArraySize cells logicalCellCount
                             (numRows (displayDimensions hdl)) logicalCellCount
                             (numRows (displayDimensions hdl)))
                          physicalCellCount ignored
                      else
                        normalizeCellArraySize cells logicalCellCount
                          (numRows (displayDimensions hdl)) physicalCellCount (drv_numRows disp))
               in (notified, if \<not> isThreadSafe disp then Displayed cells' else Queued cells'))"

subsection \<open>The routing hooks\<close>

text \<open>\<^verbatim>\<open>getattr(gesture, "_routingIndex", None)\<close>, then the translation unless it is \<^verbatim>\<open>None\<close>.\<close>

definition getRoutingIndex :: "'f CellMappingManager \<Rightarrow> BrailleDisplayGesture \<Rightarrow> int option" where
  "getRoutingIndex manager gesture =
     (let rawIndex = (case routingIndexAttr gesture of None \<Rightarrow> None | Some v \<Rightarrow> v)
      in case rawIndex of
           None \<Rightarrow> None
         | Some r \<Rightarrow> physicalToLogicalIndex manager r)"

definition setRoutingIndex :: "BrailleDisplayGesture \<Rightarrow> int option \<Rightarrow> BrailleDisplayGesture" where
  "setRoutingIndex gesture v = gesture\<lparr> routingIndexAttr := Some v \<rparr>"

text \<open>
  \<^verbatim>\<open>patchedRouteTo\<close> calls \<^verbatim>\<open>self._originalRouteTo(handler, windowPos)\<close>, the attribute
  read when the call happens. Applying a saved object to a handler state \<open>'h\<close> is the
  parameter \<open>call\<close>; applying \<^verbatim>\<open>None\<close> raises \<^verbatim>\<open>TypeError\<close>.
\<close>

datatype error = TypeError

definition patchedRouteTo ::
  "('f impl \<Rightarrow> 'h \<Rightarrow> int \<Rightarrow> 'h) \<Rightarrow> 'f CellMappingManager \<Rightarrow> 'h \<Rightarrow> int option \<Rightarrow> error + 'h" where
  "patchedRouteTo call self hdl windowPos =
     (case windowPos of
        None \<Rightarrow> Inr hdl
      | Some pos \<Rightarrow>
          (case m_originalRouteTo self of
             None \<Rightarrow> Inl TypeError
           | Some original \<Rightarrow> Inr (call original hdl pos)))"

subsection \<open>Registering and unregistering\<close>

text \<open>
  The manager together with the module it patches. The two things
  \<^verbatim>\<open>_refreshDisplay\<close> asks of the host, reading \<^verbatim>\<open>braille.handler.displayDimensions\<close>
  and calling \<^verbatim>\<open>braille.handler.update()\<close>, are code of the host: they are parameters,
  each a function on the whole state (reading the dimensions runs the registered
  filters, which is how \<^verbatim>\<open>_filterDisplayDimensions\<close> gets called).
\<close>

record 'f world =
  manager :: "'f CellMappingManager"
  braille :: "'f braille_module"

record 'f host =
  readDisplayDimensions :: "'f world \<Rightarrow> 'f world"
  handlerUpdate :: "'f world \<Rightarrow> 'f world"

definition refreshDisplay :: "'f host \<Rightarrow> 'f world \<Rightarrow> 'f world" where
  "refreshDisplay hst w =
     (case handler (braille w) of
        None \<Rightarrow> w
      | Some h \<Rightarrow>
          (case display h of
             None \<Rightarrow> w
           | Some d \<Rightarrow>
               let w1 = (if displayDimensionsAttr h \<noteq> None
                         then w\<lparr> braille := (braille w)
                                  \<lparr> handler := Some (h\<lparr> displayDimensionsAttr := Some None \<rparr>) \<rparr> \<rparr>
                         else w);
                   w2 = readDisplayDimensions hst w1
               in handlerUpdate hst w2))"

text \<open>
  Each \<^verbatim>\<open>_patch...\<close> stores the current value of the class attribute in the manager and
  installs the add-on's object; each \<^verbatim>\<open>_unpatch...\<close> restores and clears only when the
  stored value \<^verbatim>\<open>is not None\<close>.
\<close>

definition patchWriteCells :: "'f world \<Rightarrow> 'f world" where
  "patchWriteCells w =
     w\<lparr> manager := (manager w)\<lparr> m_originalWriteCells := BrailleHandler_writeCells (braille w) \<rparr>,
        braille := (braille w)\<lparr> BrailleHandler_writeCells := Some PatchedWriteCells \<rparr> \<rparr>"

definition unpatchWriteCells :: "'f world \<Rightarrow> 'f world" where
  "unpatchWriteCells w =
     (case m_originalWriteCells (manager w) of
        None \<Rightarrow> w
      | Some original \<Rightarrow>
          w\<lparr> braille := (braille w)\<lparr> BrailleHandler_writeCells := Some original \<rparr>,
             manager := (manager w)\<lparr> m_originalWriteCells := None \<rparr> \<rparr>)"

definition patchRoutingIndex :: "'f world \<Rightarrow> 'f world" where
  "patchRoutingIndex w =
     w\<lparr> manager := (manager w)
          \<lparr> m_originalRoutingIndexProperty := BrailleDisplayGesture_routingIndex (braille w) \<rparr>,
        braille := (braille w)\<lparr> BrailleDisplayGesture_routingIndex := Some PatchedRoutingIndex \<rparr> \<rparr>"

definition unpatchRoutingIndex :: "'f world \<Rightarrow> 'f world" where
  "unpatchRoutingIndex w =
     (case m_originalRoutingIndexProperty (manager w) of
        None \<Rightarrow> w
      | Some original \<Rightarrow>
          w\<lparr> braille := (braille w)\<lparr> BrailleDisplayGesture_routingIndex := Some original \<rparr>,
             manager := (manager w)\<lparr> m_originalRoutingIndexProperty := None \<rparr> \<rparr>)"

definition patchRouteTo :: "'f world \<Rightarrow> 'f world" where
  "patchRouteTo w =
     w\<lparr> manager := (manager w)\<lparr> m_originalRouteTo := BrailleHandler_routeTo (braille w) \<rparr>,
        braille := (braille w)\<lparr> BrailleHandler_routeTo := Some PatchedRouteTo \<rparr> \<rparr>"

definition unpatchRouteTo :: "'f world \<Rightarrow> 'f world" where
  "unpatchRouteTo w =
     (case m_originalRouteTo (manager w) of
        None \<Rightarrow> w
      | Some original \<Rightarrow>
          w\<lparr> braille := (braille w)\<lparr> BrailleHandler_routeTo := Some original \<rparr>,
             manager := (manager w)\<lparr> m_originalRouteTo := None \<rparr> \<rparr>)"

definition registerHandlers :: "'f host \<Rightarrow> 'f world \<Rightarrow> 'f world" where
  "registerHandlers hst w =
     (if m_isRegistered (manager w) then w
      else
        let w1 = w\<lparr> braille := (braille w)\<lparr> filter_displayDimensions := True \<rparr> \<rparr>;
            w2 = patchWriteCells w1;
            w3 = patchRoutingIndex w2;
            w4 = patchRouteTo w3;
            w5 = w4\<lparr> manager := (manager w4)\<lparr> m_isRegistered := True \<rparr> \<rparr>
        in refreshDisplay hst w5)"

definition unregisterHandlers :: "'f host \<Rightarrow> 'f world \<Rightarrow> 'f world" where
  "unregisterHandlers hst w =
     (if \<not> m_isRegistered (manager w) then w
      else
        let w1 = w\<lparr> braille := (braille w)\<lparr> filter_displayDimensions := False \<rparr> \<rparr>;
            w2 = unpatchWriteCells w1;
            w3 = unpatchRoutingIndex w2;
            w4 = unpatchRouteTo w3;
            w5 = w4\<lparr> manager := (manager w4)\<lparr> m_isRegistered := False \<rparr> \<rparr>
        in refreshDisplay hst w5)"

definition refreshIgnoredCells :: "'f host \<Rightarrow> 'f world \<Rightarrow> 'f world" where
  "refreshIgnoredCells hst w = refreshDisplay hst w"

text \<open>The dimension filter as a step of the whole state, as the host runs it for a query.\<close>

definition queryDimensions :: "profiles \<Rightarrow> DisplayDimensions \<Rightarrow> 'f world \<Rightarrow> 'f world \<times> DisplayDimensions" where
  "queryDimensions loaded dims w =
     (let (self', dims') = filterDisplayDimensions loaded (braille w) (manager w) dims
      in (w\<lparr> manager := self' \<rparr>, dims'))"

text \<open>Calls of the manager's public methods, and a sequence of them run in order.\<close>

datatype call = Register | Unregister | RefreshIgnoredCells

fun perform :: "'f host \<Rightarrow> call \<Rightarrow> 'f world \<Rightarrow> 'f world" where
  "perform hst Register w = registerHandlers hst w"
| "perform hst Unregister w = unregisterHandlers hst w"
| "perform hst RefreshIgnoredCells w = refreshIgnoredCells hst w"

fun performAll :: "'f host \<Rightarrow> call list \<Rightarrow> 'f world \<Rightarrow> 'f world" where
  "performAll hst [] w = w"
| "performAll hst (c # cs) w = performAll hst cs (perform hst c w)"

subsection \<open>Notions used to state the properties\<close>

text \<open>
  The number of non-ignored physical positions before position \<open>i\<close>, and the value the
  placement rule puts at position \<open>i\<close>: blank (0) at an ignored position, otherwise the
  logical cell whose index is that number, or blank when the buffer is too short.
\<close>

definition rankBefore :: "int set \<Rightarrow> int \<Rightarrow> nat" where
  "rankBefore I i = card {j. 0 \<le> j \<and> j < i \<and> j \<notin> I}"

definition cellAt :: "int list \<Rightarrow> int set \<Rightarrow> int \<Rightarrow> int" where
  "cellAt L I i =
     (if i \<in> I then 0
      else if rankBefore I i < length L then L ! rankBefore I i else 0)"

text \<open>The non-ignored physical positions of \<open>[0, P)\<close> in increasing order.\<close>

definition freePositions :: "int \<Rightarrow> int set \<Rightarrow> int list" where
  "freePositions P I = filter (\<lambda>i. i \<notin> I) [0..P - 1]"

text \<open>
  The three patched entry points and the three saved originals of a state; what it means
  for a function of the host to leave them and the registration flag alone, and to leave
  the ignored-cells snapshot alone; the hooks being installed over the entry points of a
  state \<open>w0\<close>; none of the three entry points of a state being \<^verbatim>\<open>None\<close>; and a state
  being consistent with \<open>w0\<close>: installed when registered, the entry points of \<open>w0\<close>
  when not.
\<close>

definition entryPoints :: "'f world \<Rightarrow> 'f impl option \<times> 'f impl option \<times> 'f impl option" where
  "entryPoints w =
     (BrailleHandler_writeCells (braille w),
      BrailleDisplayGesture_routingIndex (braille w),
      BrailleHandler_routeTo (braille w))"

definition savedOriginals :: "'f world \<Rightarrow> 'f impl option \<times> 'f impl option \<times> 'f impl option" where
  "savedOriginals w =
     (m_originalWriteCells (manager w),
      m_originalRoutingIndexProperty (manager w),
      m_originalRouteTo (manager w))"

definition keepsHooks :: "('f world \<Rightarrow> 'f world) \<Rightarrow> bool" where
  "keepsHooks f \<longleftrightarrow>
     (\<forall>w. entryPoints (f w) = entryPoints w
        \<and> savedOriginals (f w) = savedOriginals w
        \<and> m_isRegistered (manager (f w)) = m_isRegistered (manager w))"

definition keepsSnapshot :: "('f world \<Rightarrow> 'f world) \<Rightarrow> bool" where
  "keepsSnapshot f \<longleftrightarrow> (\<forall>w. m_ignoredCells (manager (f w)) = m_ignoredCells (manager w))"

definition hooksInstalled :: "'f world \<Rightarrow> 'f world \<Rightarrow> bool" where
  "hooksInstalled w0 w \<longleftrightarrow>
     entryPoints w = (Some PatchedWriteCells, Some PatchedRoutingIndex, Some PatchedRouteTo)
     \<and> savedOriginals w = entryPoints w0"

definition originalsPresent :: "'f world \<Rightarrow> bool" where
  "originalsPresent w \<longleftrightarrow>
     BrailleHandler_writeCells (braille w) \<noteq> None
     \<and> BrailleDisplayGesture_routingIndex (braille w) \<noteq> None
     \<and> BrailleHandler_routeTo (braille w) \<noteq> None"

definition hooksConsistent :: "'f world \<Rightarrow> 'f world \<Rightarrow> bool" where
  "hooksConsistent w0 w \<longleftrightarrow>
     (if m_isRegistered (manager w) then hooksInstalled w0 w
      else entryPoints w = entryPoints w0)"

subsection \<open>Concrete inputs\<close>

text \<open>
  A profile table with one profile, a module with a single display, a module without a
  handler, and a host that behaves as the property \<^verbatim>\<open>displayDimensions\<close> is documented
  to: when nothing is cached it passes the raw dimensions through the registered filter
  and caches the result. In \<open>exampleWorld\<close> the three class attributes hold objects of
  the host; in \<open>plainAttributeWorld\<close> the class attribute \<^verbatim>\<open>routingIndex\<close> is the plain
  value \<^verbatim>\<open>None\<close>, which the add-on's getter and setter (they keep the index in
  \<^verbatim>\<open>_routingIndex\<close>) replace by a property. They instantiate the theorems below.
\<close>

definition exampleProfiles :: "int \<Rightarrow> int list \<Rightarrow> profiles" where
  "exampleProfiles n cells =
     [(''alva'', n) \<mapsto> \<lparr> driverName = ''alva'', numCells = n, ignoredCells = cells \<rparr>]"

definition exampleModule :: "int \<Rightarrow> int \<Rightarrow> nat braille_module" where
  "exampleModule rows n =
     \<lparr> handler = Some \<lparr> display = Some \<lparr> drv_name = ''alva'', drv_numCells = n,
                                         drv_numRows = rows, isThreadSafe = True \<rparr>,
                        displayDimensionsAttr = Some None,
                        displaySize = n,
                        displayDimensions = \<lparr> numRows = rows, numCols = n \<rparr> \<rparr>,
       filter_displayDimensions = False,
       BrailleHandler_writeCells = Some (HostImpl 0),
       BrailleDisplayGesture_routingIndex = Some (HostImpl 1),
       BrailleHandler_routeTo = Some (HostImpl 2) \<rparr>"

definition filteringHost :: "profiles \<Rightarrow> DisplayDimensions \<Rightarrow> 'f host" where
  "filteringHost loaded raw =
     \<lparr> readDisplayDimensions =
         (\<lambda>w. case handler (braille w) of
                 None \<Rightarrow> w
               | Some h \<Rightarrow>
                   (case displayDimensionsAttr h of
                      Some (Some d) \<Rightarrow> w
                    | _ \<Rightarrow>
                        let (w', d) = (if filter_displayDimensions (braille w)
                                       then queryDimensions loaded raw w else (w, raw))
                        in w'\<lparr> braille := (braille w')
                                \<lparr> handler := Some (h\<lparr> displayDimensionsAttr := Some (Some d),
                                                      displayDimensions := d,
                                                      displaySize := numRows d * numCols d \<rparr>) \<rparr> \<rparr>)),
       handlerUpdate = (\<lambda>w. w) \<rparr>"

definition noHandlerModule :: "nat braille_module" where
  "noHandlerModule =
     \<lparr> handler = None,
       filter_displayDimensions = False,
       BrailleHandler_writeCells = Some (HostImpl 0),
       BrailleDisplayGesture_routingIndex = Some (HostImpl 1),
       BrailleHandler_routeTo = Some (HostImpl 2) \<rparr>"

definition exampleWorld :: "nat world" where
  "exampleWorld = \<lparr> manager = init, braille = exampleModule 1 8 \<rparr>"

definition plainAttributeWorld :: "nat world" where
  "plainAttributeWorld =
     exampleWorld\<lparr> braille := (braille exampleWorld)\<lparr> BrailleDisplayGesture_routingIndex := None \<rparr> \<rparr>"

definition exampleHost :: "nat host" where
  "exampleHost = filteringHost (exampleProfiles 8 [3, 6]) \<lparr> numRows = 1, numCols = 8 \<rparr>"

text \<open>
  A host whose two functions do nothing, a stand-in for \<^verbatim>\<open>_normalizeCellArraySize\<close>
  that pads with blanks and truncates, a handler after a refresh with one ignored cell,
  and the example state after \<^verbatim>\<open>registerHandlers\<close>.
\<close>

definition idleHost :: "'f host" where
  "idleHost = \<lparr> readDisplayDimensions = (\<lambda>w. w), handlerUpdate = (\<lambda>w. w) \<rparr>"

definition exampleNormalize :: "int list \<Rightarrow> int \<Rightarrow> int \<Rightarrow> int \<Rightarrow> int \<Rightarrow> int list" where
  "exampleNormalize cells oldCols oldRows newCols newRows =
     take (nat (newCols * newRows)) (cells @ replicate (nat (newCols * newRows)) 0)"

definition exampleHandler :: BrailleHandler where
  "exampleHandler =
     \<lparr> display = Some \<lparr> drv_name = ''alva'', drv_numCells = 8, drv_numRows = 1, isThreadSafe = True \<rparr>,
       displayDimensionsAttr = Some (Some \<lparr> numRows = 1, numCols = 7 \<rparr>),
       displaySize = 7,
       displayDimensions = \<lparr> numRows = 1, numCols = 7 \<rparr> \<rparr>"

definition registeredWorld :: "nat world" where
  "registeredWorld = registerHandlers exampleHost exampleWorld"

section \<open>Properties\<close>

subsection \<open>The boundary between 1-based configuration and 0-based indices\<close>

lemma zeroBased_map_filter:
  "getIgnoredCellsZeroBased p = map (\<lambda>c. c - 1) (filter (\<lambda>c. c > 0) (ignoredCells p))"
proof -
  have "[cell - 1. cell \<leftarrow> xs, cell > 0] = map (\<lambda>c. c - 1) (filter (\<lambda>c. c > 0) xs)"
    for xs :: "int list"
    by (induction xs) auto
  then show ?thesis unfolding getIgnoredCellsZeroBased_def by simp
qed

lemma zeroBased_nonneg: "i \<in> set (getIgnoredCellsZeroBased p) \<Longrightarrow> 0 \<le> i"
  by (auto simp add: zeroBased_map_filter)

lemma forDisplay_nonneg: "i \<in> set (getIgnoredCellsForDisplay loaded disp) \<Longrightarrow> 0 \<le> i"
  by (auto simp add: getIgnoredCellsForDisplay_def zeroBased_nonneg split: option.splits)

lemma example_ignored:
  "getIgnoredCellsForDisplay (exampleProfiles n cells) (currentDisplay (exampleModule rows n))
     = getIgnoredCellsZeroBased \<lparr> driverName = ''alva'', numCells = n, ignoredCells = cells \<rparr>"
  by (simp add: getIgnoredCellsForDisplay_def getActiveProfile_def exampleProfiles_def
      exampleModule_def currentDisplay_def)

text \<open>
  C10: \<^verbatim>\<open>getIgnoredCellsZeroBased\<close> returns, in the order of the profile, \<open>c - 1\<close> for
  each configured \<open>c > 0\<close> and nothing else; every index it returns, and so every index
  \<^verbatim>\<open>getIgnoredCellsForDisplay\<close> hands to the manager, is non-negative; a configured
  value below 1 contributes no element.
\<close>

theorem getIgnoredCellsZeroBased_boundary:
  "getIgnoredCellsZeroBased p = map (\<lambda>c. c - 1) (filter (\<lambda>c. c > 0) (ignoredCells p))
   \<and> (\<forall>i \<in> set (getIgnoredCellsZeroBased p). 0 \<le> i)
   \<and> (\<forall>i \<in> set (getIgnoredCellsForDisplay loaded disp). 0 \<le> i)
   \<and> length (getIgnoredCellsZeroBased p) = length (filter (\<lambda>c. 1 \<le> c) (ignoredCells p))"
proof -
  have "filter (\<lambda>c. 1 \<le> c) (ignoredCells p) = filter (\<lambda>c. c > 0) (ignoredCells p)"
    by (rule filter_cong) auto
  then have "length (getIgnoredCellsZeroBased p) = length (filter (\<lambda>c. 1 \<le> c) (ignoredCells p))"
    by (simp add: zeroBased_map_filter)
  then show ?thesis
    using zeroBased_map_filter zeroBased_nonneg forDisplay_nonneg by blast
qed

theorem getIgnoredCellsZeroBased_boundary_witness:
  "getIgnoredCellsZeroBased \<lparr> driverName = ''alva'', numCells = 40, ignoredCells = [3, 0, -2, 1, 7] \<rparr>
     = [2, 0, 6]
   \<and> getIgnoredCellsForDisplay (exampleProfiles 40 [3, 0, -2, 1, 7]) (currentDisplay (exampleModule 1 40))
     = [2, 0, 6]
   \<and> (0::int) \<le> 2 \<and> (0::int) \<le> 0 \<and> (0::int) \<le> 6"
proof -
  note t = getIgnoredCellsZeroBased_boundary
    [of "\<lparr> driverName = ''alva'', numCells = 40, ignoredCells = [3, 0, -2, 1, 7] \<rparr>"
        "exampleProfiles 40 [3, 0, -2, 1, 7]" "currentDisplay (exampleModule 1 40)"]
  have a: "getIgnoredCellsZeroBased \<lparr> driverName = ''alva'', numCells = 40, ignoredCells = [3, 0, -2, 1, 7] \<rparr>
     = [2, 0, 6]"
    using t[THEN conjunct1] by simp
  have b: "getIgnoredCellsForDisplay (exampleProfiles 40 [3, 0, -2, 1, 7]) (currentDisplay (exampleModule 1 40))
     = [2, 0, 6]"
    by (simp add: example_ignored a)
  have c: "\<forall>i \<in> set [2, 0, 6 :: int]. 0 \<le> i"
    using t[THEN conjunct2, THEN conjunct2, THEN conjunct1] by (simp only: b)
  show ?thesis using a b c by simp
qed

text \<open>Every finite set of non-negative positions is the snapshot of some configuration.\<close>

lemma snapshot_reachable:
  assumes "finite I" "\<forall>i \<in> I. (0::int) \<le> i"
  shows "\<exists>cells. set (getIgnoredCellsForDisplay (exampleProfiles n cells)
                       (currentDisplay (exampleModule rows n))) = I"
proof -
  obtain xs where xs: "set xs = I" using assms(1) finite_list by blast
  have pos: "filter (\<lambda>c. c > 0) (map (\<lambda>i. i + 1) xs) = map (\<lambda>i. i + 1) xs"
    using assms(2) xs by (auto simp add: filter_id_conv)
  have "getIgnoredCellsZeroBased \<lparr> driverName = ''alva'', numCells = n, ignoredCells = map (\<lambda>i. i + 1) xs \<rparr> = xs"
    by (simp add: zeroBased_map_filter pos del: filter_map) (simp add: comp_def)
  then have "set (getIgnoredCellsForDisplay (exampleProfiles n (map (\<lambda>i. i + 1) xs))
                       (currentDisplay (exampleModule rows n))) = I"
    by (simp add: example_ignored xs)
  then show ?thesis by blast
qed

subsection \<open>Reverse translation\<close>

text \<open>
  C2: \<^verbatim>\<open>_physicalToLogicalIndex\<close> returns \<open>None\<close> for a physical index in the ignored
  set and otherwise the index minus the number of ignored positions strictly below it; with
  the ignored set \<open>{2, 5}\<close>, position 0 maps to 0, 2 to nothing, 3 to 2, 5 to nothing and
  6 to 4.
\<close>

theorem physicalToLogicalIndex_spec:
  fixes self :: "'f CellMappingManager" and other :: "'f CellMappingManager"
  shows
  "physicalToLogicalIndex self p =
     (if p \<in> m_ignoredCells self then None
      else Some (p - int (card {c \<in> m_ignoredCells self. c < p})))
   \<and> physicalToLogicalIndex (other\<lparr>m_ignoredCells := {2, 5}\<rparr>) 0 = Some 0
   \<and> physicalToLogicalIndex (other\<lparr>m_ignoredCells := {2, 5}\<rparr>) 2 = None
   \<and> physicalToLogicalIndex (other\<lparr>m_ignoredCells := {2, 5}\<rparr>) 3 = Some 2
   \<and> physicalToLogicalIndex (other\<lparr>m_ignoredCells := {2, 5}\<rparr>) 5 = None
   \<and> physicalToLogicalIndex (other\<lparr>m_ignoredCells := {2, 5}\<rparr>) 6 = Some 4"
proof -
  have general: "physicalToLogicalIndex m q =
     (if q \<in> m_ignoredCells m then None
      else Some (q - int (card {c \<in> m_ignoredCells m. c < q})))"
    for m :: "'f CellMappingManager" and q
    by (simp add: physicalToLogicalIndex_def Let_def)
  have below3: "{c. (c = 2 \<or> c = 5) \<and> c < (3::int)} = {2}" by auto
  have below6: "{c. (c = 2 \<or> c = 5) \<and> c < (6::int)} = {2, 5}" by auto
  show ?thesis
    by (auto simp add: general below3 below6)
qed

subsection \<open>Forward remapping\<close>

lemma finite_free_below: "finite {j. 0 \<le> j \<and> j < a \<and> j \<notin> (I::int set)}"
  by (rule finite_subset[of _ "{0..<a}"]) auto

lemma rankBefore_0: "rankBefore I 0 = 0"
proof -
  have e: "{j. 0 \<le> j \<and> j < (0::int) \<and> j \<notin> I} = {}" by auto
  show ?thesis unfolding rankBefore_def by (simp only: e card.empty)
qed

lemma rankBefore_step:
  assumes "0 \<le> a"
  shows "rankBefore I (a + 1) = (if a \<in> I then rankBefore I a else Suc (rankBefore I a))"
proof (cases "a \<in> I")
  case True
  then have "{j. 0 \<le> j \<and> j < a + 1 \<and> j \<notin> I} = {j. 0 \<le> j \<and> j < a \<and> j \<notin> I}"
    by (auto simp: less_le)
  then show ?thesis using True by (simp add: rankBefore_def)
next
  case False
  then have "{j. 0 \<le> j \<and> j < a + 1 \<and> j \<notin> I} = insert a {j. 0 \<le> j \<and> j < a \<and> j \<notin> I}"
    using assms by auto
  then have "card {j. 0 \<le> j \<and> j < a + 1 \<and> j \<notin> I} = Suc (card {j. 0 \<le> j \<and> j < a \<and> j \<notin> I})"
    using finite_free_below[of a I] by simp
  then show ?thesis using False by (simp only: rankBefore_def if_False)
qed

lemma remapLoop_upto:
  "0 \<le> a \<Longrightarrow>
   remapLoop L I [a..b] acc (rankBefore I a) = acc @ map (cellAt L I) [a..b]"
proof (induction a b arbitrary: acc rule: upto.induct)
  case (1 i j)
  show ?case
  proof (cases "i \<le> j")
    case False
    then show ?thesis by simp
  next
    case True
    then have u: "[i..j] = i # [i + 1..j]" by (simp add: upto_rec1)
    have ih: "remapLoop L I [i + 1..j] acc' (rankBefore I (i + 1))
                = acc' @ map (cellAt L I) [i + 1..j]" for acc'
      using "1.IH"[OF True] "1.prems" by simp
    show ?thesis
    proof (cases "i \<in> I")
      case True
      then show ?thesis
        using ih[of "acc @ [0]"] "1.prems" by (simp add: u rankBefore_step cellAt_def)
    next
      case False
      then show ?thesis
        using ih[of "acc @ [cellAt L I i]"] "1.prems"
        by (cases "rankBefore I i < length L") (simp_all add: u rankBefore_step cellAt_def)
    qed
  qed
qed

lemma remap_map: "remapCellsToPhysical L P I = map (cellAt L I) [0..P - 1]"
  using remapLoop_upto[of 0 L I "P - 1" "[]"]
  by (simp add: remapCellsToPhysical_def rankBefore_0)

lemma remap_length: "length (remapCellsToPhysical L P I) = nat P"
  by (simp add: remap_map)

lemma remap_nth:
  "0 \<le> i \<Longrightarrow> i < P \<Longrightarrow> remapCellsToPhysical L P I ! nat i = cellAt L I i"
  by (simp add: remap_map)


lemma rankBefore_less:
  assumes "0 \<le> i" "i < P" "i \<notin> I"
  shows "rankBefore I i < rankBefore I P"
proof -
  have "{j. 0 \<le> j \<and> j < i \<and> j \<notin> I} \<subset> {j. 0 \<le> j \<and> j < P \<and> j \<notin> I}"
    using assms by auto
  then show ?thesis
    unfolding rankBefore_def by (rule psubset_card_mono[OF finite_free_below])
qed

lemma cellAt_take:
  assumes "0 \<le> i" "i < P" "take (rankBefore I P) L' = take (rankBefore I P) L"
  shows "cellAt L' I i = cellAt L I i"
proof (cases "i \<in> I")
  case True
  then show ?thesis by (simp add: cellAt_def)
next
  case False
  let ?n = "rankBefore I P" and ?k = "rankBefore I i"
  have k: "?k < ?n" using rankBefore_less[OF assms(1,2) False] .
  have len: "min ?n (length L') = min ?n (length L)"
    using arg_cong[OF assms(3), of length] by simp
  then have dom: "?k < length L' \<longleftrightarrow> ?k < length L" using k by linarith
  have "L' ! ?k = L ! ?k" if "?k < length L"
  proof -
    have "take ?n L' ! ?k = take ?n L ! ?k" using assms(3) by simp
    then show ?thesis using k by simp
  qed
  then show ?thesis using False dom by (simp add: cellAt_def)
qed

lemma remap_take:
  assumes "take (rankBefore I P) L' = take (rankBefore I P) L"
  shows "remapCellsToPhysical L' P I = remapCellsToPhysical L P I"
  unfolding remap_map
  by (rule map_cong[OF refl]) (simp add: cellAt_take[OF _ _ assms])

text \<open>
  C1: for a non-negative physical cell count \<open>P\<close> the remapped list has length \<open>P\<close>; at
  each physical index \<open>i\<close> in \<open>[0, P)\<close> it holds 0 when \<open>i\<close> is ignored and otherwise
  \<open>L ! k\<close>, \<open>k\<close> the number of non-ignored positions before \<open>i\<close>, or 0 when \<open>k\<close> is not
  an index of \<open>L\<close>; and the result depends only on the first \<open>n\<close> elements of \<open>L\<close>,
  \<open>n\<close> the number of non-ignored positions in \<open>[0, P)\<close>: what lies beyond is dropped.
\<close>

theorem remapCellsToPhysical_spec:
  assumes "0 \<le> P"
  shows "length (remapCellsToPhysical L P I) = nat P
   \<and> (\<forall>i. 0 \<le> i \<and> i < P \<longrightarrow>
         remapCellsToPhysical L P I ! nat i =
           (if i \<in> I then 0
            else if card {j. 0 \<le> j \<and> j < i \<and> j \<notin> I} < length L
                 then L ! card {j. 0 \<le> j \<and> j < i \<and> j \<notin> I}
                 else 0))
   \<and> (\<forall>L'. take (card {j. 0 \<le> j \<and> j < P \<and> j \<notin> I}) L' = take (card {j. 0 \<le> j \<and> j < P \<and> j \<notin> I}) L
          \<longrightarrow> remapCellsToPhysical L' P I = remapCellsToPhysical L P I)"
proof (intro conjI allI impI)
  show "length (remapCellsToPhysical L P I) = nat P" by (rule remap_length)
next
  fix i assume "0 \<le> i \<and> i < P"
  then have "remapCellsToPhysical L P I ! nat i = cellAt L I i" by (simp add: remap_nth)
  then show "remapCellsToPhysical L P I ! nat i =
           (if i \<in> I then 0
            else if card {j. 0 \<le> j \<and> j < i \<and> j \<notin> I} < length L
                 then L ! card {j. 0 \<le> j \<and> j < i \<and> j \<notin> I}
                 else 0)"
    by (simp only: cellAt_def rankBefore_def)
next
  fix L'
  assume "take (card {j. 0 \<le> j \<and> j < P \<and> j \<notin> I}) L' = take (card {j. 0 \<le> j \<and> j < P \<and> j \<notin> I}) L"
  then show "remapCellsToPhysical L' P I = remapCellsToPhysical L P I"
    by (intro remap_take) (simp only: rankBefore_def)
qed

theorem remapCellsToPhysical_spec_witness:
  "length (remapCellsToPhysical [7, 8, 9, 10, 11, 12] 5 {1}) = 5
   \<and> remapCellsToPhysical [7, 8, 9, 10, 11, 12] 5 {1} ! 1 = 0
   \<and> remapCellsToPhysical [7, 8, 9, 10, 11, 12] 5 {1} ! 2 = 8
   \<and> remapCellsToPhysical [7] 5 {1} ! 2 = 0
   \<and> remapCellsToPhysical [7, 8, 9, 10, 99] 5 {1} = remapCellsToPhysical [7, 8, 9, 10, 11, 12] 5 {1}"
proof -
  have P: "(0::int) \<le> 5" by simp
  note long = remapCellsToPhysical_spec[OF P, of "[7, 8, 9, 10, 11, 12]" "{1}"]
  note short = remapCellsToPhysical_spec[OF P, of "[7]" "{1}"]
  have r2: "card {j. 0 \<le> j \<and> j < (2::int) \<and> j \<notin> {1}} = 1"
  proof -
    have "{j. 0 \<le> j \<and> j < (2::int) \<and> j \<notin> {1}} = {0}" by auto
    then show ?thesis by (simp only: card.empty card_insert_if finite.emptyI empty_iff if_False One_nat_def)
  qed
  have r5: "card {j. 0 \<le> j \<and> j < (5::int) \<and> j \<notin> {1}} = 4"
  proof -
    have "{j. 0 \<le> j \<and> j < (5::int) \<and> j \<notin> {1}} = {0, 2, 3, 4}" by auto
    then show ?thesis by simp
  qed
  have a: "length (remapCellsToPhysical [7, 8, 9, 10, 11, 12] 5 {1}) = 5"
    using conjunct1[OF long] by simp
  have b: "remapCellsToPhysical [7, 8, 9, 10, 11, 12] 5 {1} ! nat 1 = 0"
    using conjunct1[OF conjunct2[OF long], rule_format, of 1] by simp
  have c: "remapCellsToPhysical [7, 8, 9, 10, 11, 12] 5 {1} ! nat 2 = 8"
    using conjunct1[OF conjunct2[OF long], rule_format, of 2] by (simp only: r2) simp
  have d: "remapCellsToPhysical [7] 5 {1} ! nat 2 = 0"
    using conjunct1[OF conjunct2[OF short], rule_format, of 2] by (simp only: r2) simp
  have e: "remapCellsToPhysical [7, 8, 9, 10, 99] 5 {1} = remapCellsToPhysical [7, 8, 9, 10, 11, 12] 5 {1}"
    using conjunct2[OF conjunct2[OF long], rule_format, of "[7, 8, 9, 10, 99]"] by (simp only: r5) simp
  show ?thesis using a b c d e by simp
qed

subsection \<open>Reverse translation inverts forward placement\<close>

lemma strict_sorted_below_nth:
  assumes "sorted_wrt (<) (xs :: int list)" "k < length xs"
  shows "{x \<in> set xs. x < xs ! k} = set (take k xs)"
proof (intro set_eqI iffI)
  fix x assume "x \<in> {x \<in> set xs. x < xs ! k}"
  then obtain n where n: "n < length xs" "xs ! n = x" and lt: "x < xs ! k"
    by (auto simp: in_set_conv_nth)
  have "n < k"
  proof (rule ccontr)
    assume "\<not> n < k"
    then have "k \<le> n" by simp
    then have "k = n \<or> k < n" by auto
    then have "xs ! k \<le> xs ! n"
    proof
      assume "k = n" then show ?thesis by simp
    next
      assume "k < n"
      then have "xs ! k < xs ! n" using sorted_wrt_nth_less[OF assms(1) _ n(1)] by simp
      then show ?thesis by simp
    qed
    then show False using lt n(2) by simp
  qed
  then show "x \<in> set (take k xs)"
    using n assms(2) by (auto simp: in_set_conv_nth)
next
  fix x assume "x \<in> set (take k xs)"
  then obtain n where n: "n < k" "xs ! n = x"
    using assms(2) by (auto simp: in_set_conv_nth)
  then have "x < xs ! k" using sorted_wrt_nth_less[OF assms(1) n(1) assms(2)] by simp
  moreover have "x \<in> set xs" using \<open>x \<in> set (take k xs)\<close> by (rule in_set_takeD)
  ultimately show "x \<in> {x \<in> set xs. x < xs ! k}" by simp
qed

lemma freePositions_sorted: "sorted_wrt (<) (freePositions P I)"
  unfolding freePositions_def
  by (intro sorted_wrt_filter) (simp add: strict_sorted_iff)

lemma freePositions_set: "set (freePositions P I) = {j. 0 \<le> j \<and> j < P \<and> j \<notin> I}"
  by (auto simp: freePositions_def)

lemma freePositions_length: "length (freePositions P I) = rankBefore I P"
proof -
  have "distinct (freePositions P I)" by (simp add: freePositions_def)
  then have "length (freePositions P I) = card (set (freePositions P I))"
    by (simp add: distinct_card)
  then show ?thesis by (simp only: freePositions_set rankBefore_def)
qed

lemma rankBefore_full:
  assumes "I \<subseteq> {0..<P}"
  shows "rankBefore I P = nat P - card I"
proof -
  have fin: "finite I" using assms by (rule finite_subset) simp
  have "{j. 0 \<le> j \<and> j < P \<and> j \<notin> I} = {0..<P} - I" by auto
  then have "rankBefore I P = card ({0..<P} - I)" by (simp only: rankBefore_def)
  also have "\<dots> = card {0..<P} - card I" using fin assms by (rule card_Diff_subset)
  finally show ?thesis by simp
qed

lemma freePositions_nth:
  assumes "k < length (freePositions P I)"
  shows "0 \<le> freePositions P I ! k" "freePositions P I ! k < P" "freePositions P I ! k \<notin> I"
    "rankBefore I (freePositions P I ! k) = k"
proof -
  let ?ps = "freePositions P I" and ?p = "freePositions P I ! k"
  have "?p \<in> set ?ps" using assms by simp
  then have r: "0 \<le> ?p \<and> ?p < P \<and> ?p \<notin> I"
    by (simp add: freePositions_set)
  show range: "0 \<le> ?p" "?p < P" "?p \<notin> I" using r by simp_all
  have "{j. 0 \<le> j \<and> j < ?p \<and> j \<notin> I} = {x \<in> set ?ps. x < ?p}"
    using range by (auto simp: freePositions_set)
  also have "\<dots> = set (take k ?ps)"
    by (rule strict_sorted_below_nth[OF freePositions_sorted assms])
  finally have "rankBefore I ?p = card (set (take k ?ps))" by (simp only: rankBefore_def)
  also have "\<dots> = length (take k ?ps)"
    by (rule distinct_card) (simp add: freePositions_def)
  finally show "rankBefore I ?p = k" using assms by simp
qed

lemma ignored_below:
  assumes "\<forall>c \<in> I. 0 \<le> c" "0 \<le> p"
  shows "int (card {c \<in> I. c < p}) + int (rankBefore I p) = p"
proof -
  have fin1: "finite {c \<in> I. c < p}"
    by (rule finite_subset[of _ "{0..<p}"]) (use assms in auto)
  have fin2: "finite {j. 0 \<le> j \<and> j < p \<and> j \<notin> I}"
    by (rule finite_subset[of _ "{0..<p}"]) auto
  have un: "{c \<in> I. c < p} \<union> {j. 0 \<le> j \<and> j < p \<and> j \<notin> I} = {0..<p}"
    using assms by auto
  have dj: "{c \<in> I. c < p} \<inter> {j. 0 \<le> j \<and> j < p \<and> j \<notin> I} = {}" by auto
  have "card {c \<in> I. c < p} + card {j. 0 \<le> j \<and> j < p \<and> j \<notin> I} = card {0..<p}"
    using card_Un_disjoint[OF fin1 fin2 dj] by (simp only: un)
  then show ?thesis using assms(2) by (simp add: rankBefore_def)
qed

text \<open>
  C3: for an ignored set \<open>I\<close> within \<open>[0, P)\<close>, a logical buffer \<open>L\<close> of length
  \<open>P - |I|\<close> and \<open>k < P - |I|\<close>, the \<open>k\<close>-th non-ignored physical position \<open>p\<close> (in
  increasing order) receives \<open>L ! k\<close> from the forward remapping and is translated back
  to \<open>k\<close> by \<^verbatim>\<open>_physicalToLogicalIndex\<close>.
\<close>

theorem round_trip:
  fixes self :: "'f CellMappingManager"
  assumes "I \<subseteq> {0..<P}"
      and "m_ignoredCells self = I"
      and "length L = nat P - card I"
      and "k < nat P - card I"
      and "p = filter (\<lambda>i. i \<notin> I) [0..P - 1] ! k"
  shows "remapCellsToPhysical L P I ! nat p = L ! k
         \<and> physicalToLogicalIndex self p = Some (int k)"
proof -
  have p: "p = freePositions P I ! k" using assms(5) by (simp only: freePositions_def)
  have k: "k < length (freePositions P I)"
    using assms(4) by (simp only: freePositions_length rankBefore_full[OF assms(1)])
  note facts = freePositions_nth[OF k, folded p]
  have "remapCellsToPhysical L P I ! nat p = cellAt L I p"
    using facts(1,2) by (rule remap_nth)
  also have "\<dots> = L ! k"
    using facts(3,4) assms(3,4) by (simp add: cellAt_def)
  finally have forward: "remapCellsToPhysical L P I ! nat p = L ! k" .
  have nonneg: "\<forall>c \<in> I. 0 \<le> c" using assms(1) by auto
  have "int (card {c \<in> I. c < p}) + int k = p"
    using ignored_below[OF nonneg facts(1)] by (simp only: facts(4))
  then have "p - int (card {c \<in> I. c < p}) = int k" by simp
  then have backward: "physicalToLogicalIndex self p = Some (int k)"
    using facts(3) assms(2) by (simp add: physicalToLogicalIndex_def Let_def)
  show ?thesis using forward backward by simp
qed

theorem round_trip_witness:
  "remapCellsToPhysical [11, 12, 13, 14, 15, 16] 8 {2, 5} ! 3 = 13
   \<and> physicalToLogicalIndex ((init :: unit CellMappingManager)\<lparr>m_ignoredCells := {2, 5}\<rparr>) 3 = Some 2"
proof -
  have sub: "{2, 5} \<subseteq> {0..<(8::int)}" by simp
  have ig: "m_ignoredCells ((init :: unit CellMappingManager)\<lparr>m_ignoredCells := {2, 5}\<rparr>) = {2, 5}" by simp
  have len: "length [11, 12, 13, 14, 15, 16 :: int] = nat 8 - card {2, 5 :: int}" by simp
  have k: "(2::nat) < nat 8 - card {2, 5 :: int}" by simp
  have p: "(3::int) = filter (\<lambda>i. i \<notin> {2, 5}) [0..8 - 1] ! 2" by code_simp
  show ?thesis
    using round_trip[OF sub ig len k p] by simp
qed

subsection \<open>The dimension filter\<close>

lemma filter_result:
  "snd (filterDisplayDimensions loaded brl self dims) =
     (let I = set (getIgnoredCellsForDisplay loaded (currentDisplay brl))
      in if I = {} \<or> numRows dims > 1 then dims
         else \<lparr> numRows = 1,
                 numCols = max 0 (numCols dims - int (card {i \<in> I. 0 \<le> i \<and> i < numCols dims})) \<rparr>)"
  by (simp add: filterDisplayDimensions_def Let_def)

lemma filter_snapshot:
  "m_ignoredCells (fst (filterDisplayDimensions loaded brl self dims)) =
     set (getIgnoredCellsForDisplay loaded (currentDisplay brl))"
  by (simp add: filterDisplayDimensions_def Let_def)

text \<open>
  C4: for raw dimensions with one row and a non-negative number of columns, and \<open>I\<close> the
  ignored set the configuration yields, the filter returns one row and
  \<open>max 0 (cols - |{i \<in> I. 0 \<le> i < cols}|)\<close> columns: only ignored positions within
  \<open>[0, cols)\<close> count. The instances that follow it are 8 columns with \<open>{2, 5}\<close>
  (6 columns) and with \<open>{2, 5, 9}\<close> (6 columns), and 4 columns with \<open>{0, 1, 2, 3}\<close>
  (0 columns).
\<close>

theorem filterDisplayDimensions_single_row:
  assumes "numRows dims = 1" and "0 \<le> numCols dims"
      and "set (getIgnoredCellsForDisplay loaded (currentDisplay brl)) = I"
  shows "snd (filterDisplayDimensions loaded brl self dims) =
           \<lparr> numRows = 1,
             numCols = max 0 (numCols dims - int (card {i \<in> I. 0 \<le> i \<and> i < numCols dims})) \<rparr>"
proof (cases "I = {}")
  case True
  then have "snd (filterDisplayDimensions loaded brl self dims) = dims"
    using assms(3) by (simp add: filter_result)
  moreover have "dims = \<lparr> numRows = 1, numCols = max 0 (numCols dims - int (card {i \<in> I. 0 \<le> i \<and> i < numCols dims})) \<rparr>"
    using assms(1,2) True by simp
  ultimately show ?thesis by simp
next
  case False
  then show ?thesis using assms(1,3) by (simp add: filter_result Let_def)
qed

theorem filterDisplayDimensions_single_row_witness:
  "snd (filterDisplayDimensions (exampleProfiles 8 [3, 6]) (exampleModule 1 8) init \<lparr> numRows = 1, numCols = 8 \<rparr>)
     = \<lparr> numRows = 1, numCols = 6 \<rparr>
   \<and> snd (filterDisplayDimensions (exampleProfiles 8 [3, 6, 10]) (exampleModule 1 8) init \<lparr> numRows = 1, numCols = 8 \<rparr>)
     = \<lparr> numRows = 1, numCols = 6 \<rparr>
   \<and> snd (filterDisplayDimensions (exampleProfiles 4 [1, 2, 3, 4]) (exampleModule 1 4) init \<lparr> numRows = 1, numCols = 4 \<rparr>)
     = \<lparr> numRows = 1, numCols = 0 \<rparr>"
proof -
  have rows: "numRows \<lparr> numRows = 1, numCols = c \<rparr> = 1" for c :: int by simp
  have cols8: "0 \<le> numCols \<lparr> numRows = 1, numCols = 8 \<rparr>" by simp
  have cols4: "0 \<le> numCols \<lparr> numRows = 1, numCols = 4 \<rparr>" by simp
  have I1: "set (getIgnoredCellsForDisplay (exampleProfiles 8 [3, 6]) (currentDisplay (exampleModule 1 8))) = {2, 5}"
    by (simp add: example_ignored getIgnoredCellsZeroBased_def)
  have I2: "set (getIgnoredCellsForDisplay (exampleProfiles 8 [3, 6, 10]) (currentDisplay (exampleModule 1 8))) = {2, 5, 9}"
    by (simp add: example_ignored getIgnoredCellsZeroBased_def)
  have I3: "set (getIgnoredCellsForDisplay (exampleProfiles 4 [1, 2, 3, 4]) (currentDisplay (exampleModule 1 4))) = {0, 1, 2, 3}"
    by (simp add: example_ignored getIgnoredCellsZeroBased_def)
  have c1: "{i \<in> {2, 5}. 0 \<le> i \<and> i < (8::int)} = {2, 5}" by auto
  have c2: "{i \<in> {2, 5, 9}. 0 \<le> i \<and> i < (8::int)} = {2, 5}" by auto
  have c3: "{i \<in> {0, 1, 2, 3}. 0 \<le> i \<and> i < (4::int)} = {0, 1, 2, 3}" by auto
  have a: "snd (filterDisplayDimensions (exampleProfiles 8 [3, 6]) (exampleModule 1 8) init \<lparr> numRows = 1, numCols = 8 \<rparr>)
     = \<lparr> numRows = 1, numCols = 6 \<rparr>"
    using filterDisplayDimensions_single_row[OF rows cols8 I1, of init]
    unfolding DisplayDimensions.simps c1 by simp
  have b: "snd (filterDisplayDimensions (exampleProfiles 8 [3, 6, 10]) (exampleModule 1 8) init \<lparr> numRows = 1, numCols = 8 \<rparr>)
     = \<lparr> numRows = 1, numCols = 6 \<rparr>"
    using filterDisplayDimensions_single_row[OF rows cols8 I2, of init]
    unfolding DisplayDimensions.simps c2 by simp
  have c: "snd (filterDisplayDimensions (exampleProfiles 4 [1, 2, 3, 4]) (exampleModule 1 4) init \<lparr> numRows = 1, numCols = 4 \<rparr>)
     = \<lparr> numRows = 1, numCols = 0 \<rparr>"
    using filterDisplayDimensions_single_row[OF rows cols4 I3, of init]
    unfolding DisplayDimensions.simps c3 by simp
  show ?thesis using a b c by simp
qed

text \<open>
  C5 as stated (the dimensions pass through whenever the row count is not 1) fails on raw
  dimensions with zero rows, 8 columns and the ignored set \<open>{2, 5}\<close>: the guard of the
  source is \<^verbatim>\<open>numRows > 1\<close>, so the filter goes on and returns one row and 6 columns.
\<close>

theorem multi_row_bypass_counterexample:
  "numRows \<lparr> numRows = 0, numCols = 8 \<rparr> \<noteq> 1
   \<and> snd (filterDisplayDimensions (exampleProfiles 8 [3, 6]) (exampleModule 0 8) init \<lparr> numRows = 0, numCols = 8 \<rparr>)
       = \<lparr> numRows = 1, numCols = 6 \<rparr>
   \<and> snd (filterDisplayDimensions (exampleProfiles 8 [3, 6]) (exampleModule 0 8) init \<lparr> numRows = 0, numCols = 8 \<rparr>)
       \<noteq> \<lparr> numRows = 0, numCols = 8 \<rparr>"
proof -
  have c1: "{i. (i = 2 \<or> i = 5) \<and> 0 \<le> i \<and> i < (8::int)} = {2, 5}" by auto
  have "snd (filterDisplayDimensions (exampleProfiles 8 [3, 6]) (exampleModule 0 8) init \<lparr> numRows = 0, numCols = 8 \<rparr>)
       = \<lparr> numRows = 1, numCols = 6 \<rparr>"
    by (simp add: filter_result example_ignored getIgnoredCellsZeroBased_def c1)
  then show ?thesis by simp
qed

text \<open>
  C5, as amended: for raw dimensions with more than one row, whatever the ignored set,
  and for any raw dimensions (zero rows included) when the ignored set is empty, the
  filter returns the dimensions it was given.
\<close>

theorem multi_row_bypass:
  assumes "numRows dims > 1 \<or> set (getIgnoredCellsForDisplay loaded (currentDisplay brl)) = {}"
  shows "snd (filterDisplayDimensions loaded brl self dims) = dims"
  using assms by (auto simp add: filter_result)

theorem multi_row_bypass_witness:
  "snd (filterDisplayDimensions (exampleProfiles 40 [3, 6]) (exampleModule 2 40) init \<lparr> numRows = 2, numCols = 20 \<rparr>)
     = \<lparr> numRows = 2, numCols = 20 \<rparr>
   \<and> snd (filterDisplayDimensions (exampleProfiles 40 [3, 6]) noHandlerModule init \<lparr> numRows = 0, numCols = 0 \<rparr>)
     = \<lparr> numRows = 0, numCols = 0 \<rparr>"
proof -
  have rows: "numRows \<lparr> numRows = 2, numCols = 20 \<rparr> > 1
     \<or> set (getIgnoredCellsForDisplay (exampleProfiles 40 [3, 6]) (currentDisplay (exampleModule 2 40))) = {}"
    by simp
  have none: "numRows \<lparr> numRows = 0, numCols = 0 \<rparr> > 1
     \<or> set (getIgnoredCellsForDisplay (exampleProfiles 40 [3, 6]) (currentDisplay noHandlerModule)) = {}"
    by (simp add: getIgnoredCellsForDisplay_def getActiveProfile_def currentDisplay_def noHandlerModule_def)
  show ?thesis
    using multi_row_bypass[OF rows, of init] multi_row_bypass[OF none, of init] by simp
qed

subsection \<open>Ignored positions outside the physical range\<close>

lemma rankBefore_out_of_range:
  assumes "J \<inter> {0..<P} = {}" "i \<le> P"
  shows "rankBefore (I \<union> J) i = rankBefore I i"
proof -
  have "{j. 0 \<le> j \<and> j < i \<and> j \<notin> I \<union> J} = {j. 0 \<le> j \<and> j < i \<and> j \<notin> I}"
    using assms by fastforce
  then show ?thesis by (simp only: rankBefore_def)
qed

lemma remap_out_of_range:
  assumes "J \<inter> {0..<P} = {}"
  shows "remapCellsToPhysical L P (I \<union> J) = remapCellsToPhysical L P I"
  unfolding remap_map
proof (rule map_cong[OF refl])
  fix i assume "i \<in> set [0..P - 1]"
  then have i: "0 \<le> i" "i < P" by auto
  then have "i \<notin> J" using assms by auto
  then show "cellAt L (I \<union> J) i = cellAt L I i"
    using i rankBefore_out_of_range[OF assms, of i I] by (simp add: cellAt_def)
qed

lemma filter_snapshot_nonneg:
  "c \<in> m_ignoredCells (fst (filterDisplayDimensions loaded brl self dims)) \<Longrightarrow> 0 \<le> c"
  by (simp add: filter_snapshot forDisplay_nonneg)

lemma reverse_out_of_range:
  fixes a b :: "'f CellMappingManager"
  assumes "J \<inter> {0..<P} = {}" and "\<forall>j \<in> J. 0 \<le> j"
      and "m_ignoredCells a = I \<union> J" and "m_ignoredCells b = I"
      and "0 \<le> p" "p < P"
  shows "physicalToLogicalIndex a p = physicalToLogicalIndex b p"
proof -
  have above: "P \<le> j" if "j \<in> J" for j
    using that assms(1,2) by (auto simp: disjoint_iff)
  have mem: "p \<in> I \<union> J \<longleftrightarrow> p \<in> I" using above[of p] assms(6) by auto
  have "c \<notin> J" if "c < p" for c using above[of c] assms(6) that by auto
  then have "{c \<in> I \<union> J. c < p} = {c \<in> I. c < p}" by auto
  then have cnt: "(\<Sum>cell \<in> {c \<in> I \<union> J. c < p}. (1::int)) = (\<Sum>cell \<in> {c \<in> I. c < p}. 1)"
    by (simp only:)
  show ?thesis
    using mem cnt unfolding physicalToLogicalIndex_def Let_def assms(3,4) by simp
qed

text \<open>
  C6: a snapshot is what \<^verbatim>\<open>_filterDisplayDimensions\<close>, its only writer, assigns from the
  configuration. For such a snapshot written as \<open>I \<union> J\<close>, with \<open>J\<close> any set of
  positions outside \<open>[0, P)\<close>, the forward remapping with \<open>I \<union> J\<close> equals the one with
  \<open>I\<close> for every \<open>L\<close>, and at every physical index in \<open>[0, P)\<close> the reverse translation
  of the manager holding \<open>I \<union> J\<close> equals that of a manager holding \<open>I\<close>.
\<close>

theorem out_of_range_discarded:
  fixes self other :: "'f CellMappingManager"
  assumes "J \<inter> {0..<P} = {}"
      and "m_ignoredCells (fst (filterDisplayDimensions loaded brl self dims)) = I \<union> J"
  shows "remapCellsToPhysical L P (I \<union> J) = remapCellsToPhysical L P I
    \<and> (\<forall>p. 0 \<le> p \<and> p < P \<longrightarrow>
          physicalToLogicalIndex (fst (filterDisplayDimensions loaded brl self dims)) p
            = physicalToLogicalIndex (other\<lparr> m_ignoredCells := I \<rparr>) p)"
proof (intro conjI impI allI)
  show "remapCellsToPhysical L P (I \<union> J) = remapCellsToPhysical L P I"
    using assms(1) by (rule remap_out_of_range)
next
  fix p assume p: "0 \<le> p \<and> p < P"
  have nonneg: "\<forall>j \<in> J. 0 \<le> j"
  proof
    fix j assume "j \<in> J"
    then have "j \<in> m_ignoredCells (fst (filterDisplayDimensions loaded brl self dims))"
      by (simp add: assms(2))
    then show "0 \<le> j" by (rule filter_snapshot_nonneg)
  qed
  have b: "m_ignoredCells (other\<lparr> m_ignoredCells := I \<rparr>) = I" by simp
  show "physicalToLogicalIndex (fst (filterDisplayDimensions loaded brl self dims)) p
          = physicalToLogicalIndex (other\<lparr> m_ignoredCells := I \<rparr>) p"
    using reverse_out_of_range[OF assms(1) nonneg assms(2) b] p by blast
qed

theorem out_of_range_discarded_witness:
  "m_ignoredCells (fst (filterDisplayDimensions (exampleProfiles 8 [3, 6, 10, 13]) (exampleModule 1 8)
       init \<lparr> numRows = 1, numCols = 8 \<rparr>)) = {2, 5} \<union> {9, 12}
   \<and> remapCellsToPhysical [1, 2, 3, 4, 5, 6] 8 ({2, 5} \<union> {9, 12})
       = remapCellsToPhysical [1, 2, 3, 4, 5, 6] 8 {2, 5}
   \<and> physicalToLogicalIndex (fst (filterDisplayDimensions (exampleProfiles 8 [3, 6, 10, 13])
       (exampleModule 1 8) init \<lparr> numRows = 1, numCols = 8 \<rparr>)) 6
       = physicalToLogicalIndex ((init :: nat CellMappingManager)\<lparr> m_ignoredCells := {2, 5} \<rparr>) 6
   \<and> physicalToLogicalIndex ((init :: nat CellMappingManager)\<lparr> m_ignoredCells := {2, 5} \<rparr>) 6 = Some 4"
proof -
  have d: "{9, 12} \<inter> {0..<(8::int)} = {}" by simp
  have snap: "m_ignoredCells (fst (filterDisplayDimensions (exampleProfiles 8 [3, 6, 10, 13])
       (exampleModule 1 8) (init :: nat CellMappingManager) \<lparr> numRows = 1, numCols = 8 \<rparr>))
       = {2, 5} \<union> {9, 12}"
    by (auto simp add: filter_snapshot example_ignored getIgnoredCellsZeroBased_def)
  have p: "(0::int) \<le> 6 \<and> (6::int) < 8" by simp
  note t = out_of_range_discarded[OF d snap, of "[1, 2, 3, 4, 5, 6]" "init"]
  have below: "{c. (c = 2 \<or> c = 5) \<and> c < (6::int)} = {2, 5}" by auto
  have v: "physicalToLogicalIndex ((init :: nat CellMappingManager)\<lparr> m_ignoredCells := {2, 5} \<rparr>) 6 = Some 4"
    by (simp add: physicalToLogicalIndex_def Let_def below)
  show ?thesis
    by (intro conjI) (rule snap, rule t[THEN conjunct1], rule t[THEN conjunct2, rule_format, OF p], rule v)
qed

subsection \<open>Absent routing indices\<close>

lemma patchedRouteTo_forwards:
  "m_originalRouteTo self = Some original \<Longrightarrow>
   patchedRouteTo call self hdl (Some pos) = Inr (call original hdl pos)"
  by (simp add: patchedRouteTo_def)

lemma getRoutingIndex_translates:
  "getRoutingIndex self \<lparr> routingIndexAttr = Some (Some r) \<rparr> = physicalToLogicalIndex self r"
  by (simp add: getRoutingIndex_def)

text \<open>
  C7: a gesture without a stored routing index, be the attribute missing or \<^verbatim>\<open>None\<close>,
  has routing index \<open>None\<close> whatever the manager's snapshot, and \<^verbatim>\<open>patchedRouteTo\<close>
  with the position \<open>None\<close> returns with the handler as it was, whatever calling the
  original would do: the original is not called.
\<close>

theorem absence_is_consumed:
  fixes self :: "'f CellMappingManager" and call :: "'f impl \<Rightarrow> 'h \<Rightarrow> int \<Rightarrow> 'h"
  shows "getRoutingIndex self \<lparr> routingIndexAttr = None \<rparr> = None
   \<and> getRoutingIndex self \<lparr> routingIndexAttr = Some None \<rparr> = None
   \<and> patchedRouteTo call self hdl None = Inr hdl"
  by (simp add: getRoutingIndex_def patchedRouteTo_def)

subsection \<open>Registering and unregistering\<close>

lemma refreshDisplay_hooks:
  assumes "keepsHooks (readDisplayDimensions hst)" "keepsHooks (handlerUpdate hst)"
  shows "entryPoints (refreshDisplay hst w) = entryPoints w"
    and "savedOriginals (refreshDisplay hst w) = savedOriginals w"
    and "m_isRegistered (manager (refreshDisplay hst w)) = m_isRegistered (manager w)"
proof -
  have r: "entryPoints (readDisplayDimensions hst v) = entryPoints v"
      "savedOriginals (readDisplayDimensions hst v) = savedOriginals v"
      "m_isRegistered (manager (readDisplayDimensions hst v)) = m_isRegistered (manager v)" for v
    using assms(1) by (simp_all add: keepsHooks_def)
  have u: "entryPoints (handlerUpdate hst v) = entryPoints v"
      "savedOriginals (handlerUpdate hst v) = savedOriginals v"
      "m_isRegistered (manager (handlerUpdate hst v)) = m_isRegistered (manager v)" for v
    using assms(2) by (simp_all add: keepsHooks_def)
  have inv: "entryPoints (w\<lparr> braille := (braille w)\<lparr> handler := h \<rparr> \<rparr>) = entryPoints w"
      "savedOriginals (w\<lparr> braille := (braille w)\<lparr> handler := h \<rparr> \<rparr>) = savedOriginals w" for h
    by (simp_all add: entryPoints_def savedOriginals_def)
  show "entryPoints (refreshDisplay hst w) = entryPoints w"
    by (simp add: refreshDisplay_def Let_def r u inv split: option.splits)
  show "savedOriginals (refreshDisplay hst w) = savedOriginals w"
    by (simp add: refreshDisplay_def Let_def r u inv split: option.splits)
  show "m_isRegistered (manager (refreshDisplay hst w)) = m_isRegistered (manager w)"
    by (simp add: refreshDisplay_def Let_def r u split: option.splits)
qed

lemma register_when_registered:
  "m_isRegistered (manager w) \<Longrightarrow> registerHandlers hst w = w"
  by (simp add: registerHandlers_def)

lemma unregister_when_unregistered:
  "\<not> m_isRegistered (manager w) \<Longrightarrow> unregisterHandlers hst w = w"
  by (simp add: unregisterHandlers_def)

lemma register_installs:
  assumes "keepsHooks (readDisplayDimensions hst)" "keepsHooks (handlerUpdate hst)"
      and "\<not> m_isRegistered (manager w)"
  shows "m_isRegistered (manager (registerHandlers hst w))"
    and "hooksInstalled w (registerHandlers hst w)"
proof -
  define w5 where "w5 = (patchRouteTo (patchRoutingIndex (patchWriteCells
      (w\<lparr> braille := (braille w)\<lparr> filter_displayDimensions := True \<rparr> \<rparr>))))"
  define w6 where "w6 = w5\<lparr> manager := (manager w5)\<lparr> m_isRegistered := True \<rparr> \<rparr>"
  have run: "registerHandlers hst w = refreshDisplay hst w6"
    using assms(3) by (simp add: registerHandlers_def Let_def w6_def w5_def)
  have e: "entryPoints w6 = (Some PatchedWriteCells, Some PatchedRoutingIndex, Some PatchedRouteTo)"
    by (simp add: w6_def w5_def entryPoints_def patchWriteCells_def patchRoutingIndex_def
        patchRouteTo_def)
  have s: "savedOriginals w6 = entryPoints w"
    by (simp add: w6_def w5_def savedOriginals_def entryPoints_def patchWriteCells_def
        patchRoutingIndex_def patchRouteTo_def)
  have r: "m_isRegistered (manager w6)" by (simp add: w6_def)
  show "m_isRegistered (manager (registerHandlers hst w))"
    using r by (simp add: run refreshDisplay_hooks(3)[OF assms(1,2)])
  show "hooksInstalled w (registerHandlers hst w)"
    unfolding hooksInstalled_def run
    by (simp only: refreshDisplay_hooks(1,2)[OF assms(1,2)] e s)
qed

text \<open>
  Unregistering restores an entry point only when the value saved for it is not
  \<^verbatim>\<open>None\<close>: with all three originals present the entry points of \<open>w0\<close> come back.
\<close>

lemma unregister_restores:
  assumes "keepsHooks (readDisplayDimensions hst)" "keepsHooks (handlerUpdate hst)"
      and "m_isRegistered (manager w)" "hooksInstalled w0 w" "originalsPresent w0"
  shows "\<not> m_isRegistered (manager (unregisterHandlers hst w))"
    and "entryPoints (unregisterHandlers hst w) = entryPoints w0"
proof -
  define w5 where "w5 = (unpatchRouteTo (unpatchRoutingIndex (unpatchWriteCells
      (w\<lparr> braille := (braille w)\<lparr> filter_displayDimensions := False \<rparr> \<rparr>))))"
  define w6 where "w6 = w5\<lparr> manager := (manager w5)\<lparr> m_isRegistered := False \<rparr> \<rparr>"
  have run: "unregisterHandlers hst w = refreshDisplay hst w6"
    using assms(3) by (simp add: unregisterHandlers_def Let_def w6_def w5_def)
  obtain a b c where orig: "BrailleHandler_writeCells (braille w0) = Some a"
      "BrailleDisplayGesture_routingIndex (braille w0) = Some b"
      "BrailleHandler_routeTo (braille w0) = Some c"
    using assms(5) by (auto simp add: originalsPresent_def)
  have saved: "m_originalWriteCells (manager w) = Some a"
      "m_originalRoutingIndexProperty (manager w) = Some b"
      "m_originalRouteTo (manager w) = Some c"
    using assms(4) orig by (simp_all add: hooksInstalled_def savedOriginals_def entryPoints_def)
  have e: "entryPoints w6 = entryPoints w0"
    by (simp add: w6_def w5_def entryPoints_def unpatchWriteCells_def unpatchRoutingIndex_def
        unpatchRouteTo_def saved orig)
  have r: "\<not> m_isRegistered (manager w6)" by (simp add: w6_def)
  show "\<not> m_isRegistered (manager (unregisterHandlers hst w))"
    using r by (simp add: run refreshDisplay_hooks(3)[OF assms(1,2)])
  show "entryPoints (unregisterHandlers hst w) = entryPoints w0"
    by (simp only: run refreshDisplay_hooks(1)[OF assms(1,2)] e)
qed

lemma perform_consistent:
  assumes "keepsHooks (readDisplayDimensions hst)" "keepsHooks (handlerUpdate hst)"
      and "originalsPresent w0" "hooksConsistent w0 w"
  shows "hooksConsistent w0 (perform hst c w)"
proof (cases c)
  case Register
  show ?thesis
  proof (cases "m_isRegistered (manager w)")
    case True
    then show ?thesis using assms(4) Register by (simp add: register_when_registered)
  next
    case False
    then have e: "entryPoints w = entryPoints w0" using assms(4) by (simp add: hooksConsistent_def)
    have "hooksInstalled w (registerHandlers hst w)" "m_isRegistered (manager (registerHandlers hst w))"
      using register_installs[OF assms(1,2) False] by simp_all
    then show ?thesis using e Register
      by (simp add: hooksConsistent_def hooksInstalled_def)
  qed
next
  case Unregister
  show ?thesis
  proof (cases "m_isRegistered (manager w)")
    case False
    then show ?thesis using assms(4) Unregister by (simp add: unregister_when_unregistered)
  next
    case True
    then have "hooksInstalled w0 w" using assms(4) by (simp add: hooksConsistent_def)
    then show ?thesis using unregister_restores[OF assms(1,2) True _ assms(3)] Unregister
      by (simp add: hooksConsistent_def)
  qed
next
  case RefreshIgnoredCells
  then show ?thesis using assms(4)
    by (simp add: refreshIgnoredCells_def hooksConsistent_def hooksInstalled_def
        refreshDisplay_hooks[OF assms(1,2)] split: if_splits)
qed

lemma performAll_consistent:
  assumes "keepsHooks (readDisplayDimensions hst)" "keepsHooks (handlerUpdate hst)"
      and "originalsPresent w0"
  shows "hooksConsistent w0 w \<Longrightarrow> hooksConsistent w0 (performAll hst cs w)"
  by (induction cs arbitrary: w) (simp_all add: perform_consistent[OF assms])

lemma performAll_append: "performAll hst (cs @ ds) w = performAll hst ds (performAll hst cs w)"
  by (induction cs arbitrary: w) simp_all

lemma unregister_last:
  assumes "keepsHooks (readDisplayDimensions hst)" "keepsHooks (handlerUpdate hst)"
      and "originalsPresent w0" "hooksConsistent w0 w"
  shows "entryPoints (unregisterHandlers hst w) = entryPoints w0"
    and "\<not> m_isRegistered (manager (unregisterHandlers hst w))"
proof -
  show "entryPoints (unregisterHandlers hst w) = entryPoints w0"
  proof (cases "m_isRegistered (manager w)")
    case True
    then have "hooksInstalled w0 w" using assms(4) by (simp add: hooksConsistent_def)
    then show ?thesis using unregister_restores[OF assms(1,2) True _ assms(3)] by simp
  next
    case False
    then show ?thesis using assms(4) by (simp add: unregister_when_unregistered hooksConsistent_def)
  qed
  show "\<not> m_isRegistered (manager (unregisterHandlers hst w))"
  proof (cases "m_isRegistered (manager w)")
    case True
    then have "hooksInstalled w0 w" using assms(4) by (simp add: hooksConsistent_def)
    then show ?thesis using unregister_restores[OF assms(1,2) True _ assms(3)] by simp
  next
    case False
    then show ?thesis by (simp add: unregister_when_unregistered)
  qed
qed

lemma filteringHost_keepsHooks:
  "keepsHooks (readDisplayDimensions (filteringHost loaded raw))"
  "keepsHooks (handlerUpdate (filteringHost loaded raw))"
  by (auto simp add: keepsHooks_def filteringHost_def entryPoints_def savedOriginals_def
      queryDimensions_def filterDisplayDimensions_def Let_def split: option.splits prod.splits)

text \<open>
  What holds of the two-state machine: the two calls are the identity in the state they
  do not apply to; and when the host's two functions leave the entry points, the saved
  originals and the flag alone and none of the three entry points is \<^verbatim>\<open>None\<close> to begin
  with, registering installs the three hooks and saves the originals, registering again
  changes nothing, and any sequence of calls that ends with \<^verbatim>\<open>unregisterHandlers\<close>
  restores the three entry points.
\<close>

lemma two_state_when_originals_present:
  "(m_isRegistered (manager w) \<longrightarrow> registerHandlers hst w = w)
   \<and> (\<not> m_isRegistered (manager w) \<longrightarrow> unregisterHandlers hst w = w)
   \<and> (keepsHooks (readDisplayDimensions hst) \<and> keepsHooks (handlerUpdate hst)
        \<and> originalsPresent w \<and> \<not> m_isRegistered (manager w) \<longrightarrow>
          hooksInstalled w (registerHandlers hst w)
          \<and> registerHandlers hst (registerHandlers hst w) = registerHandlers hst w
          \<and> entryPoints (unregisterHandlers hst (registerHandlers hst w)) = entryPoints w
          \<and> entryPoints (performAll hst (cs @ [Unregister]) w) = entryPoints w
          \<and> \<not> m_isRegistered (manager (performAll hst (cs @ [Unregister]) w)))"
proof (intro conjI impI)
  show "registerHandlers hst w = w" if "m_isRegistered (manager w)"
    using that by (rule register_when_registered)
  show "unregisterHandlers hst w = w" if "\<not> m_isRegistered (manager w)"
    using that by (rule unregister_when_unregistered)
next
  assume h: "keepsHooks (readDisplayDimensions hst) \<and> keepsHooks (handlerUpdate hst)
        \<and> originalsPresent w \<and> \<not> m_isRegistered (manager w)"
  then have k1: "keepsHooks (readDisplayDimensions hst)" and k2: "keepsHooks (handlerUpdate hst)"
    and present: "originalsPresent w" and un: "\<not> m_isRegistered (manager w)" by simp_all
  have start: "hooksConsistent w w" using un by (simp add: hooksConsistent_def)
  note reg = register_installs[OF k1 k2 un]
  show "hooksInstalled w (registerHandlers hst w)" by (rule reg(2))
  show "registerHandlers hst (registerHandlers hst w) = registerHandlers hst w"
    using reg(1) by (rule register_when_registered)
  show "entryPoints (unregisterHandlers hst (registerHandlers hst w)) = entryPoints w"
    using unregister_restores(2)[OF k1 k2 reg(1) reg(2) present] .
  have mid: "hooksConsistent w (performAll hst cs w)"
    using performAll_consistent[OF k1 k2 present start] .
  show "entryPoints (performAll hst (cs @ [Unregister]) w) = entryPoints w"
    using unregister_last(1)[OF k1 k2 present mid] by (simp add: performAll_append)
  show "\<not> m_isRegistered (manager (performAll hst (cs @ [Unregister]) w))"
    using unregister_last(2)[OF k1 k2 present mid] by (simp add: performAll_append)
qed

text \<open>
  The same with a class attribute that is \<^verbatim>\<open>None\<close>: whatever the host does in
  \<^verbatim>\<open>_refreshDisplay\<close> short of touching the hooks, \<^verbatim>\<open>unregisterHandlers\<close> after
  \<^verbatim>\<open>registerHandlers\<close> leaves the add-on's property on \<^verbatim>\<open>routingIndex\<close>.
\<close>

lemma routingIndex_None_not_restored:
  assumes "keepsHooks (readDisplayDimensions hst)" "keepsHooks (handlerUpdate hst)"
      and "\<not> m_isRegistered (manager w)"
      and "BrailleDisplayGesture_routingIndex (braille w) = None"
  shows "BrailleDisplayGesture_routingIndex (braille (unregisterHandlers hst (registerHandlers hst w)))
           = Some PatchedRoutingIndex"
proof -
  let ?v = "registerHandlers hst w"
  note reg = register_installs[OF assms(1,2,3)]
  have slot: "BrailleDisplayGesture_routingIndex (braille ?v) = Some PatchedRoutingIndex"
    and saved: "m_originalRoutingIndexProperty (manager ?v) = None"
    using reg(2) assms(4) by (simp_all add: hooksInstalled_def entryPoints_def savedOriginals_def)
  define w5 where "w5 = (unpatchRouteTo (unpatchRoutingIndex (unpatchWriteCells
      (?v\<lparr> braille := (braille ?v)\<lparr> filter_displayDimensions := False \<rparr> \<rparr>))))"
  define w6 where "w6 = w5\<lparr> manager := (manager w5)\<lparr> m_isRegistered := False \<rparr> \<rparr>"
  have run: "unregisterHandlers hst ?v = refreshDisplay hst w6"
    using reg(1) by (simp add: unregisterHandlers_def Let_def w6_def w5_def)
  have "BrailleDisplayGesture_routingIndex (braille w6) = Some PatchedRoutingIndex"
    by (simp add: w6_def w5_def unpatchWriteCells_def unpatchRoutingIndex_def unpatchRouteTo_def
        slot saved split: option.splits)
  then have "fst (snd (entryPoints w6)) = Some PatchedRoutingIndex"
    by (simp add: entryPoints_def)
  then have "fst (snd (entryPoints (refreshDisplay hst w6))) = Some PatchedRoutingIndex"
    by (simp only: refreshDisplay_hooks(1)[OF assms(1,2)])
  then show ?thesis by (simp add: run entryPoints_def)
qed

text \<open>
  C8 (the code departs from it): in \<open>plainAttributeWorld\<close> the class attribute
  \<^verbatim>\<open>routingIndex\<close> is \<^verbatim>\<open>None\<close> before the add-on registers. \<^verbatim>\<open>_patchRoutingIndex\<close>
  saves that \<^verbatim>\<open>None\<close>, and \<^verbatim>\<open>_unpatchRoutingIndex\<close>, which restores only when the saved
  value \<^verbatim>\<open>is not None\<close>, does nothing: after \<^verbatim>\<open>registerHandlers\<close> and
  \<^verbatim>\<open>unregisterHandlers\<close> the manager is unregistered, \<^verbatim>\<open>_writeCells\<close> and \<^verbatim>\<open>routeTo\<close>
  are the host's again, and \<^verbatim>\<open>routingIndex\<close> is still the add-on's property; a second
  round then saves the add-on's own property as the original.
\<close>

theorem routingIndex_stays_patched:
  "\<not> m_isRegistered (manager plainAttributeWorld)
   \<and> entryPoints plainAttributeWorld = (Some (HostImpl 0), None, Some (HostImpl 2))
   \<and> entryPoints (registerHandlers exampleHost plainAttributeWorld)
        = (Some PatchedWriteCells, Some PatchedRoutingIndex, Some PatchedRouteTo)
   \<and> \<not> m_isRegistered (manager (unregisterHandlers exampleHost (registerHandlers exampleHost plainAttributeWorld)))
   \<and> entryPoints (unregisterHandlers exampleHost (registerHandlers exampleHost plainAttributeWorld))
        = (Some (HostImpl 0), Some PatchedRoutingIndex, Some (HostImpl 2))
   \<and> savedOriginals (registerHandlers exampleHost
        (unregisterHandlers exampleHost (registerHandlers exampleHost plainAttributeWorld)))
        = (Some (HostImpl 0), Some PatchedRoutingIndex, Some (HostImpl 2))"
proof -
  have k1: "keepsHooks (readDisplayDimensions exampleHost)"
    and k2: "keepsHooks (handlerUpdate exampleHost)"
    by (simp_all add: exampleHost_def filteringHost_keepsHooks)
  have un: "\<not> m_isRegistered (manager plainAttributeWorld)"
    by (simp add: plainAttributeWorld_def exampleWorld_def init_def)
  have e0: "entryPoints plainAttributeWorld = (Some (HostImpl 0), None, Some (HostImpl 2))"
    by (simp add: entryPoints_def plainAttributeWorld_def exampleWorld_def exampleModule_def)
  let ?v = "registerHandlers exampleHost plainAttributeWorld"
  let ?u = "unregisterHandlers exampleHost ?v"
  note reg = register_installs[OF k1 k2 un]
  have e1: "entryPoints ?v = (Some PatchedWriteCells, Some PatchedRoutingIndex, Some PatchedRouteTo)"
    using reg(2) by (simp add: hooksInstalled_def)
  have s1: "savedOriginals ?v = (Some (HostImpl 0), None, Some (HostImpl 2))"
    using reg(2) by (simp add: hooksInstalled_def e0)
  define w5 where "w5 = (unpatchRouteTo (unpatchRoutingIndex (unpatchWriteCells
      (?v\<lparr> braille := (braille ?v)\<lparr> filter_displayDimensions := False \<rparr> \<rparr>))))"
  define w6 where "w6 = w5\<lparr> manager := (manager w5)\<lparr> m_isRegistered := False \<rparr> \<rparr>"
  have run: "?u = refreshDisplay exampleHost w6"
    using reg(1) by (simp add: unregisterHandlers_def Let_def w6_def w5_def)
  have slots: "BrailleHandler_writeCells (braille ?v) = Some PatchedWriteCells"
      "BrailleDisplayGesture_routingIndex (braille ?v) = Some PatchedRoutingIndex"
      "BrailleHandler_routeTo (braille ?v) = Some PatchedRouteTo"
    using e1 by (simp_all add: entryPoints_def)
  have saved: "m_originalWriteCells (manager ?v) = Some (HostImpl 0)"
      "m_originalRoutingIndexProperty (manager ?v) = None"
      "m_originalRouteTo (manager ?v) = Some (HostImpl 2)"
    using s1 by (simp_all add: savedOriginals_def)
  have e6: "entryPoints w6 = (Some (HostImpl 0), Some PatchedRoutingIndex, Some (HostImpl 2))"
    by (simp add: w6_def w5_def entryPoints_def unpatchWriteCells_def unpatchRoutingIndex_def
        unpatchRouteTo_def slots saved)
  have r6: "\<not> m_isRegistered (manager w6)" by (simp add: w6_def)
  have e2: "entryPoints ?u = (Some (HostImpl 0), Some PatchedRoutingIndex, Some (HostImpl 2))"
    by (simp only: run refreshDisplay_hooks(1)[OF k1 k2] e6)
  have r2: "\<not> m_isRegistered (manager ?u)"
    using r6 by (simp add: run refreshDisplay_hooks(3)[OF k1 k2])
  have s3: "savedOriginals (registerHandlers exampleHost ?u)
      = (Some (HostImpl 0), Some PatchedRoutingIndex, Some (HostImpl 2))"
    using register_installs(2)[OF k1 k2 r2] by (simp add: hooksInstalled_def e2)
  show ?thesis
    by (intro conjI) (rule un, rule e0, rule e1, rule r2, rule e2, rule s3)
qed

subsection \<open>The snapshot is written by the dimension filter only\<close>

lemma refreshDisplay_cases:
  "refreshDisplay hst w = w
   \<or> (\<exists>w1. manager w1 = manager w
         \<and> refreshDisplay hst w = handlerUpdate hst (readDisplayDimensions hst w1))"
proof (cases "handler (braille w)")
  case None
  then show ?thesis by (simp add: refreshDisplay_def)
next
  case (Some h)
  show ?thesis
  proof (cases "display h")
    case None
    then show ?thesis using Some by (simp add: refreshDisplay_def)
  next
    case (Some d)
    define w1 where "w1 = (if displayDimensionsAttr h \<noteq> None
                         then w\<lparr> braille := (braille w)
                                  \<lparr> handler := Some (h\<lparr> displayDimensionsAttr := Some None \<rparr>) \<rparr> \<rparr>
                         else w)"
    have "manager w1 = manager w" by (simp add: w1_def)
    moreover have "refreshDisplay hst w = handlerUpdate hst (readDisplayDimensions hst w1)"
      using Some \<open>handler (braille w) = Some h\<close> by (simp add: refreshDisplay_def Let_def w1_def)
    ultimately show ?thesis by blast
  qed
qed

lemma refreshDisplay_snapshot:
  assumes "keepsSnapshot (readDisplayDimensions hst)" "keepsSnapshot (handlerUpdate hst)"
  shows "m_ignoredCells (manager (refreshDisplay hst w)) = m_ignoredCells (manager w)"
proof -
  from refreshDisplay_cases[of hst w] show ?thesis
  proof
    assume "refreshDisplay hst w = w" then show ?thesis by simp
  next
    assume "\<exists>w1. manager w1 = manager w
         \<and> refreshDisplay hst w = handlerUpdate hst (readDisplayDimensions hst w1)"
    then obtain w1 where w1: "manager w1 = manager w"
       "refreshDisplay hst w = handlerUpdate hst (readDisplayDimensions hst w1)" by blast
    have "m_ignoredCells (manager (handlerUpdate hst (readDisplayDimensions hst w1)))
            = m_ignoredCells (manager w1)"
      using assms by (simp add: keepsSnapshot_def)
    then show ?thesis using w1 by simp
  qed
qed

lemma patch_snapshot:
  "m_ignoredCells (manager (patchWriteCells w)) = m_ignoredCells (manager w)"
  "m_ignoredCells (manager (patchRoutingIndex w)) = m_ignoredCells (manager w)"
  "m_ignoredCells (manager (patchRouteTo w)) = m_ignoredCells (manager w)"
  "m_ignoredCells (manager (unpatchWriteCells w)) = m_ignoredCells (manager w)"
  "m_ignoredCells (manager (unpatchRoutingIndex w)) = m_ignoredCells (manager w)"
  "m_ignoredCells (manager (unpatchRouteTo w)) = m_ignoredCells (manager w)"
  by (simp_all add: patchWriteCells_def patchRoutingIndex_def patchRouteTo_def
      unpatchWriteCells_def unpatchRoutingIndex_def unpatchRouteTo_def split: option.splits)

lemma perform_snapshot:
  assumes "keepsSnapshot (readDisplayDimensions hst)" "keepsSnapshot (handlerUpdate hst)"
  shows "m_ignoredCells (manager (perform hst c w)) = m_ignoredCells (manager w)"
proof (cases c)
  case Register
  then show ?thesis
    by (simp add: registerHandlers_def Let_def refreshDisplay_snapshot[OF assms] patch_snapshot)
next
  case Unregister
  then show ?thesis
    by (simp add: unregisterHandlers_def Let_def refreshDisplay_snapshot[OF assms] patch_snapshot)
next
  case RefreshIgnoredCells
  then show ?thesis
    by (simp add: refreshIgnoredCells_def refreshDisplay_snapshot[OF assms])
qed

lemma queryDimensions_snapshot:
  "m_ignoredCells (manager (fst (queryDimensions loaded dims w)))
     = set (getIgnoredCellsForDisplay loaded (currentDisplay (braille w)))"
  by (simp add: queryDimensions_def filterDisplayDimensions_def Let_def split: prod.splits)

lemma patchedWriteCells_reads_snapshot:
  assumes "m_ignoredCells a = m_ignoredCells b"
  shows "patchedWriteCells norm a hdl cells = patchedWriteCells norm b hdl cells"
  unfolding patchedWriteCells_def assms by (rule refl)

lemma patchedWriteCells_remaps:
  assumes "display hdl = Some disp" "drv_numCells disp \<noteq> 0" "m_ignoredCells self \<noteq> {}"
      and "numRows (displayDimensions hdl) = 1"
  shows "snd (patchedWriteCells norm self hdl cells) =
           (if isThreadSafe disp then Queued else Displayed)
             (remapCellsToPhysical (norm cells (displaySize hdl) 1 (displaySize hdl) 1)
                (drv_numCells disp) (m_ignoredCells self))"
  using assms by (simp add: patchedWriteCells_def Let_def)

lemma registeredWorld_eval:
  "registeredWorld =
    \<lparr> manager =
        \<lparr> m_ignoredCells = {2, 5},
          m_originalRoutingIndexProperty = Some (HostImpl 1),
          m_originalWriteCells = Some (HostImpl 0),
          m_originalRouteTo = Some (HostImpl 2),
          m_isRegistered = True \<rparr>,
      braille =
        \<lparr> handler = Some \<lparr> display = Some \<lparr> drv_name = ''alva'', drv_numCells = 8,
                                            drv_numRows = 1, isThreadSafe = True \<rparr>,
                           displayDimensionsAttr = Some (Some \<lparr> numRows = 1, numCols = 6 \<rparr>),
                           displaySize = 6,
                           displayDimensions = \<lparr> numRows = 1, numCols = 6 \<rparr> \<rparr>,
          filter_displayDimensions = True,
          BrailleHandler_writeCells = Some PatchedWriteCells,
          BrailleDisplayGesture_routingIndex = Some PatchedRoutingIndex,
          BrailleHandler_routeTo = Some PatchedRouteTo \<rparr> \<rparr>"
proof -
  have c: "{i. (i = 2 \<or> i = 5) \<and> 0 \<le> i \<and> i < (8::int)} = {2, 5}" by auto
  show ?thesis
    by (simp add: registeredWorld_def registerHandlers_def exampleHost_def exampleWorld_def
        exampleModule_def exampleProfiles_def filteringHost_def init_def Let_def
        patchWriteCells_def patchRoutingIndex_def patchRouteTo_def refreshDisplay_def
        queryDimensions_def filterDisplayDimensions_def currentDisplay_def
        getIgnoredCellsForDisplay_def getActiveProfile_def getIgnoredCellsZeroBased_def c)
qed

text \<open>
  C9: \<^verbatim>\<open>refreshIgnoredCells\<close> either returns the state as it is or hands a state with
  the same manager to the host's two functions: it assigns nothing to the snapshot
  itself, and when the host's functions leave the snapshot alone, so does every public
  call of the manager. After \<^verbatim>\<open>refreshIgnoredCells\<close> and a dimension query under any
  configuration, the snapshot is the set that configuration yields, whatever it was
  before; the write hook behaves as for any manager with that snapshot, and on a
  single-row handler with a display and a non-empty new set it writes the cells
  remapped with the new set.
\<close>

theorem refresh_consistency:
  "(refreshIgnoredCells hst w = w
      \<or> (\<exists>w1. manager w1 = manager w
            \<and> refreshIgnoredCells hst w = handlerUpdate hst (readDisplayDimensions hst w1)))
   \<and> (keepsSnapshot (readDisplayDimensions hst) \<and> keepsSnapshot (handlerUpdate hst)
        \<longrightarrow> m_ignoredCells (manager (perform hst c w)) = m_ignoredCells (manager w))
   \<and> (let w1 = refreshIgnoredCells hst w;
           newSet = set (getIgnoredCellsForDisplay loaded (currentDisplay (braille w1)));
           w2 = fst (queryDimensions loaded dims w1)
       in m_ignoredCells (manager w2) = newSet
          \<and> (\<forall>self. m_ignoredCells self = newSet \<longrightarrow>
                patchedWriteCells norm (manager w2) hdl cells = patchedWriteCells norm self hdl cells)
          \<and> (\<forall>disp. display hdl = Some disp \<and> drv_numCells disp \<noteq> 0 \<and> newSet \<noteq> {}
                  \<and> numRows (displayDimensions hdl) = 1 \<longrightarrow>
                snd (patchedWriteCells norm (manager w2) hdl cells) =
                  (if isThreadSafe disp then Queued else Displayed)
                    (remapCellsToPhysical (norm cells (displaySize hdl) 1 (displaySize hdl) 1)
                       (drv_numCells disp) newSet)))"
proof (intro conjI)
  show "refreshIgnoredCells hst w = w
      \<or> (\<exists>w1. manager w1 = manager w
            \<and> refreshIgnoredCells hst w = handlerUpdate hst (readDisplayDimensions hst w1))"
    unfolding refreshIgnoredCells_def by (rule refreshDisplay_cases)
  show "keepsSnapshot (readDisplayDimensions hst) \<and> keepsSnapshot (handlerUpdate hst)
        \<longrightarrow> m_ignoredCells (manager (perform hst c w)) = m_ignoredCells (manager w)"
    using perform_snapshot by blast
  define w1 where "w1 = refreshIgnoredCells hst w"
  define newSet where "newSet = set (getIgnoredCellsForDisplay loaded (currentDisplay (braille w1)))"
  define w2 where "w2 = fst (queryDimensions loaded dims w1)"
  have snap: "m_ignoredCells (manager w2) = newSet"
    unfolding w2_def newSet_def by (rule queryDimensions_snapshot)
  have same: "\<forall>self. m_ignoredCells self = newSet \<longrightarrow>
      patchedWriteCells norm (manager w2) hdl cells = patchedWriteCells norm self hdl cells"
    using snap patchedWriteCells_reads_snapshot by metis
  have remap: "\<forall>disp. display hdl = Some disp \<and> drv_numCells disp \<noteq> 0 \<and> newSet \<noteq> {}
                  \<and> numRows (displayDimensions hdl) = 1 \<longrightarrow>
                snd (patchedWriteCells norm (manager w2) hdl cells) =
                  (if isThreadSafe disp then Queued else Displayed)
                    (remapCellsToPhysical (norm cells (displaySize hdl) 1 (displaySize hdl) 1)
                       (drv_numCells disp) newSet)"
    using patchedWriteCells_remaps[of hdl _ "manager w2" norm cells] snap by auto
  show "let w1 = refreshIgnoredCells hst w;
           newSet = set (getIgnoredCellsForDisplay loaded (currentDisplay (braille w1)));
           w2 = fst (queryDimensions loaded dims w1)
       in m_ignoredCells (manager w2) = newSet
          \<and> (\<forall>self. m_ignoredCells self = newSet \<longrightarrow>
                patchedWriteCells norm (manager w2) hdl cells = patchedWriteCells norm self hdl cells)
          \<and> (\<forall>disp. display hdl = Some disp \<and> drv_numCells disp \<noteq> 0 \<and> newSet \<noteq> {}
                  \<and> numRows (displayDimensions hdl) = 1 \<longrightarrow>
                snd (patchedWriteCells norm (manager w2) hdl cells) =
                  (if isThreadSafe disp then Queued else Displayed)
                    (remapCellsToPhysical (norm cells (displaySize hdl) 1 (displaySize hdl) 1)
                       (drv_numCells disp) newSet))"
    unfolding Let_def using snap same remap unfolding w2_def newSet_def w1_def by blast
qed

theorem refresh_consistency_witness:
  "m_ignoredCells (manager registeredWorld) = {2, 5}
   \<and> m_ignoredCells (manager (refreshIgnoredCells idleHost registeredWorld)) = {2, 5}
   \<and> m_ignoredCells (manager (fst (queryDimensions (exampleProfiles 8 [1]) \<lparr> numRows = 1, numCols = 8 \<rparr>
         (refreshIgnoredCells idleHost registeredWorld)))) = {0}
   \<and> snd (patchedWriteCells exampleNormalize
         (manager (fst (queryDimensions (exampleProfiles 8 [1]) \<lparr> numRows = 1, numCols = 8 \<rparr>
            (refreshIgnoredCells idleHost registeredWorld))))
         exampleHandler [1, 2, 3, 4, 5, 6, 7])
       = Queued [0, 1, 2, 3, 4, 5, 6, 7]"
proof -
  note t = refresh_consistency[where hst = idleHost and w = registeredWorld
      and c = RefreshIgnoredCells and loaded = "exampleProfiles 8 [1]"
      and dims = "\<lparr> numRows = 1, numCols = 8 \<rparr>" and hdl = exampleHandler
      and norm = exampleNormalize and cells = "[1, 2, 3, 4, 5, 6, 7]"]
  have old: "m_ignoredCells (manager registeredWorld) = {2, 5}"
    by (simp add: registeredWorld_eval)
  have idle: "keepsSnapshot (readDisplayDimensions (idleHost :: nat host))
      \<and> keepsSnapshot (handlerUpdate (idleHost :: nat host))"
    by (simp add: keepsSnapshot_def idleHost_def)
  have kept: "m_ignoredCells (manager (refreshIgnoredCells idleHost registeredWorld)) = {2, 5}"
    using t[THEN conjunct2, THEN conjunct1, rule_format, OF idle] old by simp
  have disp: "currentDisplay (braille (refreshIgnoredCells idleHost registeredWorld))
      = Some \<lparr> drv_name = ''alva'', drv_numCells = 8, drv_numRows = 1, isThreadSafe = True \<rparr>"
    by (simp add: refreshIgnoredCells_def refreshDisplay_def idleHost_def registeredWorld_eval
        currentDisplay_def Let_def)
  have new: "set (getIgnoredCellsForDisplay (exampleProfiles 8 [1])
        (currentDisplay (braille (refreshIgnoredCells idleHost registeredWorld)))) = {0}"
    by (simp add: disp getIgnoredCellsForDisplay_def getActiveProfile_def exampleProfiles_def
        getIgnoredCellsZeroBased_def)
  note third = t[THEN conjunct2, THEN conjunct2, unfolded Let_def new]
  have hyp: "display exampleHandler = Some \<lparr> drv_name = ''alva'', drv_numCells = 8, drv_numRows = 1, isThreadSafe = True \<rparr>
      \<and> drv_numCells \<lparr> drv_name = ''alva'', drv_numCells = 8, drv_numRows = 1, isThreadSafe = True \<rparr> \<noteq> 0
      \<and> {0::int} \<noteq> {}
      \<and> numRows (displayDimensions exampleHandler) = 1"
    by (simp add: exampleHandler_def)
  have out: "remapCellsToPhysical (exampleNormalize [1, 2, 3, 4, 5, 6, 7] 7 1 7 1) 8 {0}
      = [0, 1, 2, 3, 4, 5, 6, 7]"
    by code_simp
  have written: "snd (patchedWriteCells exampleNormalize
         (manager (fst (queryDimensions (exampleProfiles 8 [1]) \<lparr> numRows = 1, numCols = 8 \<rparr>
            (refreshIgnoredCells idleHost registeredWorld))))
         exampleHandler [1, 2, 3, 4, 5, 6, 7])
       = Queued [0, 1, 2, 3, 4, 5, 6, 7]"
    using third[THEN conjunct2, THEN conjunct2, rule_format, OF hyp]
    by (simp add: exampleHandler_def out)
  show ?thesis
    using old kept third[THEN conjunct1] written by simp
qed

end
